theory Spec2Isabelle
  imports Complex_Main
begin

section \<open>Low-rank ADI iteration for Lyapunov equations (pymor.algorithms.lyapunov)\<close>

text \<open>
  The development embeds \<^verbatim>\<open>solve_lyap\<close>, \<^verbatim>\<open>lradi\<close>, \<^verbatim>\<open>projection_shifts_init\<close> and
  \<^verbatim>\<open>projection_shifts\<close>. Floating point numbers are idealised as \<open>real\<close> and
  \<open>complex\<close> (so that the square root of a negative number is not a NaN, and a division
  by zero is 0: no statement below depends on the value of either). The routines the module imports
  (the operators, Gram-Schmidt, the NumPy and SciPy routines that can fail, the random
  generator) are the fields of the two records \<open>operators\<close> and \<open>numlib\<close>, and the
  option parser is a parameter of \<open>solve_lyap\<close>; a call that raises inside such a routine
  returns \<open>None\<close>, which the embedding turns into \<open>LibraryError\<close>. Logging is a list of
  log entries in the state of the driver, the global random generator an explicit state.
\<close>

subsection \<open>Errors\<close>

datatype error =
    ValueError string
  | KeyError string
  | RuntimeError string
  | IndexError
  | AssertionError
  | LibraryError

definition ebind :: "error + 'a \<Rightarrow> ('a \<Rightarrow> error + 'b) \<Rightarrow> error + 'b" where
  "ebind m f = (case m of Inl e \<Rightarrow> Inl e | Inr x \<Rightarrow> f x)"

definition lib_call :: "'a option \<Rightarrow> error + 'a" where
  "lib_call r = (case r of None \<Rightarrow> Inl LibraryError | Some x \<Rightarrow> Inr x)"

subsection \<open>Vector arrays and dense matrices\<close>

text \<open>
  A VectorArray is the list of its vectors, a vector the list of its coefficients. A dense
  NumPy matrix is the list of its rows; \<^verbatim>\<open>to_numpy\<close> of an array has one row per vector.
  The class of the vector arrays is not part of the module: its operations are modelled from
  the specification (an ordered sequence of vectors of one space, with append, linear
  combination, scaling, slicing and the gramian, the matrix of pairwise inner products).
  Sums and differences are taken vector by vector, for arrays of equal length, as the
  contract of the operators gives them (\<open>batched\<close> below).
\<close>

type_synonym vector = "complex list"
type_synonym varray = "vector list"
type_synonym matrix = "complex list list"

definition scal :: "varray \<Rightarrow> real \<Rightarrow> varray" where
  \<comment> \<open>Modelled from the spec: scaling of a vector array, \<^verbatim>\<open>V * c\<close> for a real scalar\<close>
  "scal V c = map (map (\<lambda>x. x * complex_of_real c)) V"

definition va_real :: "varray \<Rightarrow> varray" where
  \<comment> \<open>Modelled from the spec: \<^verbatim>\<open>V.real\<close>, the real parts, coefficient by coefficient\<close>
  "va_real V = map (map (\<lambda>x. complex_of_real (Re x))) V"

definition va_imag :: "varray \<Rightarrow> varray" where
  \<comment> \<open>Modelled from the spec: \<^verbatim>\<open>V.imag\<close>\<close>
  "va_imag V = map (map (\<lambda>x. complex_of_real (Im x))) V"

definition va_conj :: "varray \<Rightarrow> varray" where
  \<comment> \<open>Modelled from the spec: \<^verbatim>\<open>V.conj()\<close>\<close>
  "va_conj V = map (map cnj) V"

definition va_add :: "varray \<Rightarrow> varray \<Rightarrow> varray" where
  \<comment> \<open>Modelled from the spec: the linear combination \<^verbatim>\<open>V + U\<close> and the in-place
      \<^verbatim>\<open>V += U\<close>, for arrays of equal length\<close>
  "va_add V U = map2 (map2 (+)) V U"

definition va_sub :: "varray \<Rightarrow> varray \<Rightarrow> varray" where
  \<comment> \<open>Modelled from the spec: the in-place \<^verbatim>\<open>V -= U\<close>, for arrays of equal length\<close>
  "va_sub V U = map2 (map2 (-)) V U"

definition inner :: "vector \<Rightarrow> vector \<Rightarrow> complex" where
  \<comment> \<open>Modelled from the spec: the inner product of two vectors\<close>
  "inner v w = sum_list (map2 (\<lambda>a b. cnj a * b) v w)"

definition gramian :: "varray \<Rightarrow> matrix" where
  \<comment> \<open>Modelled from the spec: \<^verbatim>\<open>gramian()\<close>, the matrix of pairwise inner products\<close>
  "gramian V = map (\<lambda>v. map (\<lambda>w. inner v w) V) V"

definition to_numpy :: "varray \<Rightarrow> matrix" where
  \<comment> \<open>Modelled from the spec: the coordinate form of an array, one row per vector\<close>
  "to_numpy V = V"

definition is_real_array :: "varray \<Rightarrow> bool" where
  \<comment> \<open>an array is real-valued when every coefficient has imaginary part zero\<close>
  "is_real_array V = list_all (list_all (\<lambda>x. Im x = 0)) V"

definition zeros :: "nat \<Rightarrow> nat \<Rightarrow> real list list" where
  \<comment> \<open>\<^verbatim>\<open>np.zeros((m, n))\<close>\<close>
  "zeros m n = replicate m (replicate n 0)"

definition eye :: "nat \<Rightarrow> matrix" where
  \<comment> \<open>\<^verbatim>\<open>np.eye(n)\<close>\<close>
  "eye n = map (\<lambda>i. map (\<lambda>k. if i = k then 1 else 0) [0..<n]) [0..<n]"

definition diag :: "real list \<Rightarrow> matrix" where
  \<comment> \<open>\<^verbatim>\<open>np.diag(xs)\<close> of a vector\<close>
  "diag xs = map (\<lambda>i. map (\<lambda>k. if i = k then complex_of_real (xs ! i) else 0) [0..<length xs])
                 [0..<length xs]"

definition kron :: "matrix \<Rightarrow> matrix \<Rightarrow> matrix" where
  \<comment> \<open>\<^verbatim>\<open>spla.kron(M, N)\<close>: the blocks \<open>M\<^bsub>ik\<^esub> N\<close>\<close>
  "kron M N = concat (map (\<lambda>mrow. map (\<lambda>nrow. concat (map (\<lambda>a. map (\<lambda>b. a * b) nrow) mrow)) N) M)"

definition cmat :: "real list list \<Rightarrow> matrix" where
  \<comment> \<open>a real matrix among the complex ones\<close>
  "cmat M = map (map complex_of_real) M"

definition set_entry :: "real list list \<Rightarrow> nat \<Rightarrow> nat \<Rightarrow> real \<Rightarrow> real list list" where
  \<comment> \<open>\<^verbatim>\<open>M[i, k] = x\<close>, used with indices in range only\<close>
  "set_entry M i k x = M[i := (M ! i)[k := x]]"

definition set_row_entries :: "real list list \<Rightarrow> nat \<Rightarrow> nat list \<Rightarrow> real list \<Rightarrow> real list list" where
  \<comment> \<open>\<^verbatim>\<open>M[i, ks] = xs\<close> for an index array \<open>ks\<close>\<close>
  "set_row_entries M i ks xs = fold (\<lambda>(k, x) M'. set_entry M' i k x) (zip ks xs) M"

subsection \<open>Python indexing\<close>

definition py_index :: "'a list \<Rightarrow> int \<Rightarrow> error + 'a" where
  \<comment> \<open>\<^verbatim>\<open>xs[i]\<close>: a negative index counts from the end, out of range raises\<close>
  "py_index xs i =
     (let n = int (length xs); k = (if i < 0 then n + i else i)
      in if 0 \<le> k \<and> k < n then Inr (xs ! nat k) else Inl IndexError)"

definition py_slice_from :: "'a list \<Rightarrow> int \<Rightarrow> 'a list" where
  \<comment> \<open>\<^verbatim>\<open>xs[i:]\<close>: the start is clipped to the list, a slice never raises\<close>
  "py_slice_from xs i =
     (if i < 0 then drop (nat (int (length xs) + i)) xs else drop (nat i) xs)"

subsection \<open>The imported routines\<close>

text \<open>
  Spaces are identified with their dimension. \<open>LincombOperator A E c\<close> stands for
  \<^verbatim>\<open>LincombOperator([A, E], [1, c])\<close> and \<open>IdentityOperator A\<close> for
  \<^verbatim>\<open>IdentityOperator(A.source)\<close>.
\<close>

record 'op operators =
  linear :: "'op \<Rightarrow> bool"
  source_space :: "'op \<Rightarrow> nat"
  range_space :: "'op \<Rightarrow> nat"
  apply_op :: "'op \<Rightarrow> varray \<Rightarrow> varray option"
  apply_adjoint :: "'op \<Rightarrow> varray \<Rightarrow> varray option"
  apply_inverse :: "'op \<Rightarrow> varray \<Rightarrow> varray option"
  apply_inverse_adjoint :: "'op \<Rightarrow> varray \<Rightarrow> varray option"
  apply2 :: "'op \<Rightarrow> varray \<Rightarrow> varray \<Rightarrow> matrix option"
  as_range_array :: "'op \<Rightarrow> varray"
  as_source_array :: "'op \<Rightarrow> varray"
  LincombOperator :: "'op \<Rightarrow> 'op \<Rightarrow> complex \<Rightarrow> 'op"
  IdentityOperator :: "'op \<Rightarrow> 'op"

record 'rng numlib =
  eigvals :: "matrix \<Rightarrow> matrix \<Rightarrow> complex list option"
  svd :: "matrix \<Rightarrow> (matrix \<times> real list \<times> matrix) option"
  norm2 :: "matrix \<Rightarrow> real option"
  dot :: "matrix \<Rightarrow> matrix \<Rightarrow> matrix option"
  madd :: "matrix \<Rightarrow> matrix \<Rightarrow> matrix option"
  gram_schmidt :: "varray \<Rightarrow> varray option"
  space_dim :: "varray \<Rightarrow> nat"
  random_seed :: "real \<Rightarrow> 'rng option"
  random_random :: "'rng \<Rightarrow> real \<times> 'rng"
  random_rand :: "nat \<Rightarrow> nat \<Rightarrow> 'rng \<Rightarrow> varray \<times> 'rng"

subsection \<open>Options\<close>

record shift_opts =
  shift_type :: string
  z_columns :: int
  init_maxiter :: int
  init_seed :: "int option"
  implicit_subspace :: bool

record lyap_opts =
  solver_type :: string
  tol :: real
  maxiter :: int
  shifts_name :: string
  shift_options :: "string \<Rightarrow> shift_opts option"

definition lyap_solver_options :: "string \<Rightarrow> lyap_opts option" where
  \<comment> \<open>the dict of available solvers, with the default values of the keyword arguments\<close>
  "lyap_solver_options =
     [''lradi'' \<mapsto>
        \<lparr>solver_type = ''lradi'', tol = 1 / 10 ^ 10, maxiter = 500,
         shifts_name = ''projection_shifts'',
         shift_options =
           [''projection_shifts'' \<mapsto>
              \<lparr>shift_type = ''projection_shifts'', z_columns = 1, init_maxiter = 20,
               init_seed = None, implicit_subspace = True\<rparr>]\<rparr>]"

subsection \<open>Shift initializer\<close>

lemma ebind_cong [fundef_cong]:
  "m = m' \<Longrightarrow> (\<And>x. m' = Inr x \<Longrightarrow> f x = f' x) \<Longrightarrow> ebind m f = ebind m' f'"
  by (cases m') (simp_all add: ebind_def)

definition stable :: "complex list \<Rightarrow> complex list" where
  \<comment> \<open>\<^verbatim>\<open>shifts[np.real(shifts) < 0]\<close>\<close>
  "stable shifts = filter (\<lambda>s. Re s < 0) shifts"

definition init_attempt ::
  "'rng numlib \<Rightarrow> 'op operators \<Rightarrow> 'op \<Rightarrow> 'op \<Rightarrow> varray \<Rightarrow> error + complex list" where
  \<comment> \<open>one pass of the loop body up to the filter: Galerkin projection onto span B\<close>
  "init_attempt lib ops A E B =
     ebind (lib_call (gram_schmidt lib B)) (\<lambda>Q.
     ebind (lib_call (apply2 ops A Q Q)) (\<lambda>Ap.
     ebind (lib_call (apply2 ops E Q Q)) (\<lambda>Ep.
     ebind (lib_call (eigvals lib Ap Ep)) (\<lambda>shifts.
     Inr (stable shifts)))))"

definition random_subspace ::
  "'rng numlib \<Rightarrow> shift_opts \<Rightarrow> nat \<Rightarrow> varray \<Rightarrow> 'rng \<Rightarrow> error + (varray \<times> 'rng)" where
  \<comment> \<open>the branch \<^verbatim>\<open>shifts.size == 0\<close>: reseed the global generator if a seed is
      configured, then draw \<^verbatim>\<open>len(B)\<close> vectors\<close>
  "random_subspace lib so i B rng =
     ebind (case init_seed so of
              None \<Rightarrow> Inr rng
            | Some sd \<Rightarrow>
                ebind (lib_call (random_seed lib (real_of_int sd))) (\<lambda>g1.
                  let (x, g2) = random_random lib g1
                  in lib_call (random_seed lib (x + real i)))) (\<lambda>g.
     Inr (random_rand lib (length B) (space_dim lib B) g))"

fun init_loop ::
  "'rng numlib \<Rightarrow> 'op operators \<Rightarrow> 'op \<Rightarrow> 'op \<Rightarrow> shift_opts \<Rightarrow> nat list \<Rightarrow> varray \<Rightarrow> 'rng
     \<Rightarrow> error + (complex list \<times> 'rng)" where
  "init_loop lib ops A E so [] B rng =
     Inl (RuntimeError ''Could not generate initial shifts for low-rank ADI iteration.'')"
| "init_loop lib ops A E so (i # is) B rng =
     ebind (init_attempt lib ops A E B) (\<lambda>shifts.
       if shifts = [] then
         ebind (random_subspace lib so i B rng) (\<lambda>(B', rng'). init_loop lib ops A E so is B' rng')
       else Inr (shifts, rng))"

definition projection_shifts_init ::
  "'rng numlib \<Rightarrow> 'op operators \<Rightarrow> 'op \<Rightarrow> 'op \<Rightarrow> varray \<Rightarrow> shift_opts \<Rightarrow> 'rng
     \<Rightarrow> error + (complex list \<times> 'rng)" where
  "projection_shifts_init lib ops A E B so rng =
     init_loop lib ops A E so [0..<nat (init_maxiter so)] B rng"

subsection \<open>Shift updater\<close>

definition window :: "int \<Rightarrow> complex list \<Rightarrow> error + (int \<times> nat)" where
  \<comment> \<open>the window size \<open>u\<close> and the offset \<open>d\<close> computed at the head of
      \<^verbatim>\<open>projection_shifts\<close>\<close>
  "window zc prev_shifts =
     (let u = zc; L = int (length prev_shifts); d = L - u;
          u = (if d < 0 then L else u);
          d = (if d < 0 then 0 else d)
      in ebind (py_index prev_shifts (- u)) (\<lambda>s.
           Inr (if Im s < 0 then u + 1 else u, nat d)))"

function implicit_loop ::
  "complex list \<Rightarrow> nat \<Rightarrow> int \<Rightarrow> nat list \<Rightarrow> nat list \<Rightarrow> nat \<Rightarrow> real list list \<Rightarrow> real list list
     \<Rightarrow> error + (real list list \<times> real list list)" where
  "implicit_loop prev_shifts d u iR iC i B G =
     (if int i < u then
        (let rS = filter (\<lambda>k. k < d + i) iR;
             cS = filter (\<lambda>k. k < d + i) iC
         in if length prev_shifts \<le> d + i then Inl IndexError
            else
              (let rp = Re (prev_shifts ! (d + i));
                   cp = Im (prev_shifts ! (d + i));
                   G = set_entry G i 0 (sqrt (- 2 * rp))
               in if cp = 0 then
                    (let B = set_entry B i i rp;
                         B = (if rS \<noteq> [] then
                                set_row_entries B i (map (\<lambda>k. k - d) rS)
                                  (map (\<lambda>k. - 2 * sqrt (rp * Re (prev_shifts ! k))) rS)
                              else B);
                         B = (if cS \<noteq> [] then
                                set_row_entries B i (map (\<lambda>k. k - d) cS)
                                  (map (\<lambda>k. - 2 * sqrt (2 * rp * Re (prev_shifts ! k))) cS)
                              else B)
                     in implicit_loop prev_shifts d u iR iC (i + 1) B G)
                  else
                    (let sri = sqrt (rp\<^sup>2 + cp\<^sup>2)
                     in if u \<le> int i + 1 then
                          Inl (ValueError ''could not broadcast input array'')
                        else
                          (let B = set_entry B i i (2 * rp);
                               B = set_entry B i (i + 1) (- sri);
                               B = set_entry B (i + 1) i sri;
                               B = set_entry B (i + 1) (i + 1) 0;
                               B = (if rS \<noteq> [] then
                                      set_row_entries B i (map (\<lambda>k. k - d) rS)
                                        (map (\<lambda>k. - 2 * sqrt (2 * rp * Re (prev_shifts ! k))) rS)
                                    else B);
                               B = (if cS \<noteq> [] then
                                      set_row_entries B i (map (\<lambda>k. k - d) cS)
                                        (map (\<lambda>k. - 4 * sqrt (rp * Re (prev_shifts ! k))) cS)
                                    else B)
                           in implicit_loop prev_shifts d u iR iC (i + 2) B G))))
      else Inr (B, G))"
  by pat_completeness auto
termination
  by (relation "measure (\<lambda>(prev_shifts, d, u, iR, iC, i, B, G). nat (u - int i))") auto

declare implicit_loop.simps [simp del]

definition implicit_pencil ::
  "'rng numlib \<Rightarrow> 'op operators \<Rightarrow> 'op \<Rightarrow> varray \<Rightarrow> varray \<Rightarrow> complex list \<Rightarrow> int \<Rightarrow> nat
     \<Rightarrow> error + (matrix \<times> matrix)" where
  \<comment> \<open>the branch \<^verbatim>\<open>implicit_subspace\<close>; \<open>Vu\<close> is the window of \<open>Z\<close>\<close>
  "implicit_pencil lib ops E Vu W prev_shifts u d =
     (if u < 0 then Inl (ValueError ''negative dimensions are not allowed'')
      else
        (let r = length W;
             B = zeros (nat u) (nat u);
             G = zeros (nat u) 1;
             Ir = eye r;
             iC = filter (\<lambda>k. Im (prev_shifts ! k) > 0) [0..<length prev_shifts];
             iR = filter (\<lambda>k. Im (prev_shifts ! k) = 0) [0..<length prev_shifts];
             iC = filter (\<lambda>k. d \<le> k) iC;
             iR = filter (\<lambda>k. d \<le> k) iR
         in ebind (implicit_loop prev_shifts d u iR iC 0 B G) (\<lambda>(B, G).
              let B = kron (cmat B) Ir;
                  G = kron (cmat G) Ir
              in ebind (lib_call (svd lib (gramian Vu))) (\<lambda>(U, s, v).
                 ebind (lib_call (dot lib (transpose v) (diag (map (\<lambda>x. 1 / sqrt x) s)))) (\<lambda>P.
                 ebind (lib_call (dot lib (transpose (to_numpy Vu)) P)) (\<lambda>Q.
                 ebind (lib_call (apply_op ops E Vu)) (\<lambda>EVu.
                 let E_V = transpose (to_numpy EVu)
                 in ebind (lib_call (dot lib (transpose Q) E_V)) (\<lambda>T.
                    ebind (lib_call (dot lib (transpose Q) (transpose (to_numpy W)))) (\<lambda>M1.
                    ebind (lib_call (dot lib M1 (transpose G))) (\<lambda>M2.
                    ebind (lib_call (dot lib M2 P)) (\<lambda>M3.
                    ebind (lib_call (dot lib B P)) (\<lambda>M4.
                    ebind (lib_call (dot lib T M4)) (\<lambda>M5.
                    ebind (lib_call (madd lib M3 M5)) (\<lambda>Ap.
                    ebind (lib_call (dot lib T P)) (\<lambda>Ep.
                    Inr (Ap, Ep))))))))))))))))"

definition explicit_pencil ::
  "'rng numlib \<Rightarrow> 'op operators \<Rightarrow> 'op \<Rightarrow> 'op \<Rightarrow> varray \<Rightarrow> error + (matrix \<times> matrix)" where
  "explicit_pencil lib ops A E Vu =
     ebind (lib_call (gram_schmidt lib Vu)) (\<lambda>Q.
     ebind (lib_call (apply2 ops A Q Q)) (\<lambda>Ap.
     ebind (lib_call (apply2 ops E Q Q)) (\<lambda>Ep.
     Inr (Ap, Ep))))"

definition projection_shifts ::
  "'rng numlib \<Rightarrow> 'op operators \<Rightarrow> 'op \<Rightarrow> 'op \<Rightarrow> varray \<Rightarrow> varray \<Rightarrow> complex list \<Rightarrow> shift_opts
     \<Rightarrow> error + complex list" where
  "projection_shifts lib ops A E Z W prev_shifts so =
     ebind (window (z_columns so) prev_shifts) (\<lambda>(u, d).
       let r = length W;
           Vu = py_slice_from Z (- u * int r)
       in ebind (if implicit_subspace so
                 then implicit_pencil lib ops E Vu W prev_shifts u d
                 else explicit_pencil lib ops A E Vu) (\<lambda>(Ap, Ep).
          ebind (lib_call (eigvals lib Ap Ep)) (\<lambda>shifts.
            let shifts = stable shifts
            in if shifts = [] then Inr (prev_shifts @ prev_shifts)
               else Inr (prev_shifts @ shifts))))"

subsection \<open>The LR-ADI driver\<close>

datatype log_entry =
    Info nat real  \<comment> \<open>step \<open>j\<close> and relative residual\<close>
  | Warning real real int  \<comment> \<open>achieved relative residual, \<open>tol\<close>, \<open>maxiter\<close>\<close>

record lradi_state =
  st_Z :: varray
  st_W :: varray
  st_j :: nat
  st_shifts :: "complex list"
  st_size_shift :: nat
  st_res :: real
  st_log :: "log_entry list"

definition real_step ::
  "'op operators \<Rightarrow> 'op \<Rightarrow> 'op \<Rightarrow> bool \<Rightarrow> complex \<Rightarrow> varray \<Rightarrow> varray \<Rightarrow> nat
     \<Rightarrow> error + (varray \<times> varray \<times> nat)" where
  \<comment> \<open>the branch \<^verbatim>\<open>shifts[j].imag == 0\<close>\<close>
  "real_step ops A E trans_flag s Z W j =
     (let AaE = LincombOperator ops A E (complex_of_real (Re s))
      in if \<not> trans_flag then
           ebind (lib_call (apply_inverse ops AaE W)) (\<lambda>V.
           ebind (lib_call (apply_op ops E V)) (\<lambda>EV.
           Inr (Z @ scal V (sqrt (- 2 * Re s)), va_sub W (scal EV (2 * Re s)), j + 1)))
         else
           ebind (lib_call (apply_inverse_adjoint ops AaE W)) (\<lambda>V.
           ebind (lib_call (apply_adjoint ops E V)) (\<lambda>EV.
           Inr (Z @ scal V (sqrt (- 2 * Re s)), va_sub W (scal EV (2 * Re s)), j + 1))))"

definition complex_step ::
  "'op operators \<Rightarrow> 'op \<Rightarrow> 'op \<Rightarrow> bool \<Rightarrow> complex \<Rightarrow> varray \<Rightarrow> varray \<Rightarrow> nat
     \<Rightarrow> error + (varray \<times> varray \<times> nat)" where
  \<comment> \<open>the \<^verbatim>\<open>else\<close> branch: a shift with nonzero imaginary part\<close>
  "complex_step ops A E trans_flag s Z W j =
     (let AaE = LincombOperator ops A E s;
          g = 2 * sqrt (- Re s);
          d = Re s / Im s
      in if \<not> trans_flag then
           ebind (lib_call (apply_inverse ops AaE W)) (\<lambda>V.
           ebind (lib_call (apply_op ops E (va_add (va_real V) (scal (va_imag V) d)))) (\<lambda>X.
           Inr (Z @ scal (va_add (va_real V) (scal (va_imag V) d)) g
                  @ scal (va_imag V) (g * sqrt (d\<^sup>2 + 1)),
                va_add W (scal X (g\<^sup>2)), j + 2)))
         else
           ebind (lib_call (apply_inverse_adjoint ops AaE W)) (\<lambda>V0.
           let V = va_conj V0
           in ebind (lib_call (apply_adjoint ops E (va_add (va_real V) (scal (va_imag V) d)))) (\<lambda>X.
           Inr (Z @ scal (va_add (va_real V) (scal (va_imag V) d)) g
                  @ scal (va_imag V) (g * sqrt (d\<^sup>2 + 1)),
                va_add W (scal X (g\<^sup>2)), j + 2))))"

definition lradi_step ::
  "'rng numlib \<Rightarrow> 'op operators \<Rightarrow> 'op \<Rightarrow> 'op \<Rightarrow> bool \<Rightarrow> shift_opts \<Rightarrow> real \<Rightarrow> lradi_state
     \<Rightarrow> error + lradi_state" where
  \<comment> \<open>one pass through the body of the \<^verbatim>\<open>while\<close> loop\<close>
  "lradi_step lib ops A E trans_flag so init_res st =
     ebind (py_index (st_shifts st) (int (st_j st))) (\<lambda>s.
     ebind (if Im s = 0 then real_step ops A E trans_flag s (st_Z st) (st_W st) (st_j st)
            else complex_step ops A E trans_flag s (st_Z st) (st_W st) (st_j st)) (\<lambda>(Z, W, j).
     ebind (if st_size_shift st \<le> j then
              ebind (projection_shifts lib ops A E Z W (st_shifts st) so) (\<lambda>shifts.
                Inr (shifts, length shifts))
            else Inr (st_shifts st, st_size_shift st)) (\<lambda>(shifts, size_shift).
     ebind (lib_call (norm2 lib (gramian W))) (\<lambda>res.
     Inr \<lparr>st_Z = Z, st_W = W, st_j = j, st_shifts = shifts, st_size_shift = size_shift,
          st_res = res, st_log = st_log st @ [Info j (res / init_res)]\<rparr>))))"

lemma ebind_Inr_iff: "ebind m f = Inr y \<longleftrightarrow> (\<exists>x. m = Inr x \<and> f x = Inr y)"
  by (cases m) (simp_all add: ebind_def)

lemma lib_call_Inr_iff: "lib_call r = Inr x \<longleftrightarrow> r = Some x"
  by (cases r) (simp_all add: lib_call_def)

lemma real_step_j: "real_step ops A E trans_flag s Z W j = Inr (Z', W', j') \<Longrightarrow> j' = j + 1"
  by (auto simp: real_step_def Let_def ebind_Inr_iff split: if_splits)

lemma complex_step_j: "complex_step ops A E trans_flag s Z W j = Inr (Z', W', j') \<Longrightarrow> j' = j + 2"
  by (auto simp: complex_step_def Let_def ebind_Inr_iff split: if_splits)

lemma lradi_step_j:
  assumes "lradi_step lib ops A E trans_flag so init_res st = Inr st'"
  shows "st_j st' = st_j st + 1 \<or> st_j st' = st_j st + 2"
proof -
  from assms obtain s Z W j where
    zwj: "(if Im s = 0 then real_step ops A E trans_flag s (st_Z st) (st_W st) (st_j st)
           else complex_step ops A E trans_flag s (st_Z st) (st_W st) (st_j st)) = Inr (Z, W, j)"
    and j: "st_j st' = j"
    by (auto simp: lradi_step_def ebind_Inr_iff)
  from zwj have "j = st_j st + 1 \<or> j = st_j st + 2"
    by (auto split: if_splits dest: real_step_j complex_step_j)
  with j show ?thesis by simp
qed

function lradi_loop ::
  "'rng numlib \<Rightarrow> 'op operators \<Rightarrow> 'op \<Rightarrow> 'op \<Rightarrow> bool \<Rightarrow> lyap_opts \<Rightarrow> shift_opts \<Rightarrow> real \<Rightarrow> real
     \<Rightarrow> lradi_state \<Rightarrow> error + lradi_state" where
  "lradi_loop lib ops A E trans_flag opts so init_res Btol st =
     (if Btol < st_res st \<and> int (st_j st) < maxiter opts then
        (case lradi_step lib ops A E trans_flag so init_res st of
           Inl e \<Rightarrow> Inl e
         | Inr st' \<Rightarrow> lradi_loop lib ops A E trans_flag opts so init_res Btol st')
      else Inr st)"
  by pat_completeness auto
termination
proof (relation "measure (\<lambda>(lib, ops, A, E, trans_flag, opts, so, init_res, Btol, st).
                   nat (maxiter opts - int (st_j st)))")
  show "wf (measure (\<lambda>(lib :: 'rng numlib, ops :: 'op operators, A :: 'op, E :: 'op, trans_flag :: bool,
                       opts :: lyap_opts, so :: shift_opts, init_res :: real, Btol :: real, st).
                   nat (maxiter opts - int (st_j st))))"
    by simp
next
  fix lib :: "'rng numlib" and ops :: "'op operators" and A E :: 'op and trans_flag
    and opts :: lyap_opts and so and init_res Btol :: real and st st'
  assume "Btol < st_res st \<and> int (st_j st) < maxiter opts"
    and "lradi_step lib ops A E trans_flag so init_res st = Inr st'"
  then show "((lib, ops, A, E, trans_flag, opts, so, init_res, Btol, st'),
              (lib, ops, A, E, trans_flag, opts, so, init_res, Btol, st))
             \<in> measure (\<lambda>(lib, ops, A, E, trans_flag, opts, so, init_res, Btol, st).
                   nat (maxiter opts - int (st_j st)))"
    using lradi_step_j [of lib ops A E trans_flag so init_res st st'] by auto
qed

lemma lradi_loop_unfold:
  "lradi_loop lib ops A E trans_flag opts so init_res Btol st =
     (if Btol < st_res st \<and> int (st_j st) < maxiter opts then
        ebind (lradi_step lib ops A E trans_flag so init_res st)
          (lradi_loop lib ops A E trans_flag opts so init_res Btol)
      else Inr st)"
  by (subst lradi_loop.simps) (simp add: ebind_def split: sum.splits)

declare lradi_loop.simps [simp del]

text \<open>
  The states the loop goes through: \<open>lradi_run \<dots> st ss st'\<close> holds when the loop,
  started in \<open>st\<close>, passes through \<open>st'\<close> at the head of an iteration, having
  consumed the shifts \<open>ss\<close> in this order.
\<close>

inductive lradi_run ::
  "'rng numlib \<Rightarrow> 'op operators \<Rightarrow> 'op \<Rightarrow> 'op \<Rightarrow> bool \<Rightarrow> lyap_opts \<Rightarrow> shift_opts \<Rightarrow> real \<Rightarrow> real
     \<Rightarrow> lradi_state \<Rightarrow> complex list \<Rightarrow> lradi_state \<Rightarrow> bool"
  for lib ops A E trans_flag opts so init_res Btol where
    run_done: "lradi_run lib ops A E trans_flag opts so init_res Btol st [] st"
  | run_step:
      "Btol < st_res st \<and> int (st_j st) < maxiter opts \<Longrightarrow>
       py_index (st_shifts st) (int (st_j st)) = Inr s \<Longrightarrow>
       lradi_step lib ops A E trans_flag so init_res st = Inr st1 \<Longrightarrow>
       lradi_run lib ops A E trans_flag opts so init_res Btol st1 ss st' \<Longrightarrow>
       lradi_run lib ops A E trans_flag opts so init_res Btol st (s # ss) st'"

definition lradi_init ::
  "'rng numlib \<Rightarrow> 'op operators \<Rightarrow> 'op \<Rightarrow> 'op \<Rightarrow> 'op \<Rightarrow> bool \<Rightarrow> lyap_opts \<Rightarrow> shift_opts \<Rightarrow> 'rng
     \<Rightarrow> error + (lradi_state \<times> real \<times> real \<times> 'rng)" where
  \<comment> \<open>from the creation of \<open>Z\<close> and \<open>W\<close> to the head of the loop: the first state,
      \<open>init_res\<close>, \<open>Btol\<close> and the generator's state\<close>
  "lradi_init lib ops A E B trans_flag opts so rng =
     (let Z = [];
          W = (if \<not> trans_flag then as_range_array ops B else as_source_array ops B)
      in ebind (projection_shifts_init lib ops A E W so rng) (\<lambda>(shifts, rng').
         ebind (lib_call (norm2 lib (gramian W))) (\<lambda>res.
         Inr (\<lparr>st_Z = Z, st_W = W, st_j = 0, st_shifts = shifts, st_size_shift = length shifts,
               st_res = res, st_log = []\<rparr>,
              res, res * tol opts, rng'))))"

definition lradi_finish :: "lyap_opts \<Rightarrow> real \<Rightarrow> real \<Rightarrow> lradi_state \<Rightarrow> varray \<times> log_entry list" where
  \<comment> \<open>after the loop: the warning of a missed tolerance, and the returned \<open>Z\<close>\<close>
  "lradi_finish opts init_res Btol st =
     (st_Z st,
      st_log st @ (if Btol < st_res st
                   then [Warning (st_res st / init_res) (tol opts) (maxiter opts)] else []))"

definition lradi ::
  "'rng numlib \<Rightarrow> 'op operators \<Rightarrow> 'op \<Rightarrow> 'op option \<Rightarrow> 'op \<Rightarrow> bool \<Rightarrow> lyap_opts \<Rightarrow> 'rng
     \<Rightarrow> error + ((varray \<times> log_entry list) \<times> 'rng)" where
  "lradi lib ops A E B trans_flag opts rng =
     (case shift_options opts (shifts_name opts) of
        None \<Rightarrow> Inl (KeyError (shifts_name opts))
      | Some so \<Rightarrow>
          if shift_type so = ''projection_shifts'' then
            (let E = (case E of None \<Rightarrow> IdentityOperator ops A | Some E' \<Rightarrow> E')
             in ebind (lradi_init lib ops A E B trans_flag opts so rng) (\<lambda>(st0, init_res, Btol, rng').
                ebind (lradi_loop lib ops A E trans_flag opts so init_res Btol st0) (\<lambda>st.
                Inr (lradi_finish opts init_res Btol st, rng'))))
          else Inl (ValueError ''Unknown lradi shift strategy''))"

subsection \<open>The equation facade\<close>

definition solve_lyap_check_args :: "'op operators \<Rightarrow> 'op \<Rightarrow> 'op option \<Rightarrow> 'op \<Rightarrow> bool \<Rightarrow> error + unit" where
  "solve_lyap_check_args ops A E B trans_flag =
     (if \<not> (linear ops A) then Inl AssertionError
      else if source_space ops A \<noteq> range_space ops A then Inl AssertionError
      else if \<not> (linear ops B) then Inl AssertionError
      else if \<not> ((\<not> trans_flag \<and> range_space ops B = source_space ops A)
                 \<or> (trans_flag \<and> source_space ops B = source_space ops A)) then Inl AssertionError
      else if \<not> (case E of None \<Rightarrow> True
                 | Some E' \<Rightarrow> linear ops E' \<and> source_space ops E' = range_space ops E'
                              \<and> range_space ops E' = source_space ops A) then Inl AssertionError
      else Inr ())"

definition solve_lyap ::
  "('u \<Rightarrow> (string \<Rightarrow> lyap_opts option) \<Rightarrow> string \<Rightarrow> lyap_opts option)
     \<Rightarrow> 'rng numlib \<Rightarrow> 'op operators \<Rightarrow> 'op \<Rightarrow> 'op option \<Rightarrow> 'op \<Rightarrow> bool \<Rightarrow> 'u \<Rightarrow> 'rng
     \<Rightarrow> error + ((varray \<times> log_entry list) \<times> 'rng)" where
  \<comment> \<open>\<open>parse_options\<close> is the imported \<^verbatim>\<open>_parse_options\<close>, called with the solver
      table and the default solver's name\<close>
  "solve_lyap parse_options lib ops A E B trans_flag options rng =
     ebind (solve_lyap_check_args ops A E B trans_flag) (\<lambda>_.
     ebind (lib_call (parse_options options lyap_solver_options ''lradi'')) (\<lambda>opts.
       if solver_type opts = ''lradi'' then lradi lib ops A E B trans_flag opts rng
       else Inl (ValueError ''Unknown solver type'')))"

subsection \<open>The complex step as the specification words it\<close>

definition spec_complex_step ::
  "'op operators \<Rightarrow> 'op \<Rightarrow> 'op \<Rightarrow> bool \<Rightarrow> complex \<Rightarrow> varray \<Rightarrow> varray \<Rightarrow> nat
     \<Rightarrow> error + (varray \<times> varray \<times> nat)" where
  \<comment> \<open>the complex step in the words of the specification, coefficient by coefficient:
      solve with \<open>A + \<sigma>E\<close> (conjugated adjoint solve for the dual equation),
      \<open>g = 2\<surd>(-Re \<sigma>)\<close>, \<open>d = Re \<sigma> / Im \<sigma>\<close>, \<open>W + g\<^sup>2 E(Re V + d Im V)\<close>, the two blocks
      \<open>(Re V + d Im V) g\<close> and \<open>Im V g \<surd>(d\<^sup>2 + 1)\<close>, two shifts consumed\<close>
  "spec_complex_step ops A E trans_flag \<sigma> Z W j =
     (let g = 2 * sqrt (- Re \<sigma>);
          d = Re \<sigma> / Im \<sigma>
      in ebind (lib_call
                 (if trans_flag
                  then map_option (map (map cnj))
                         (apply_inverse_adjoint ops (LincombOperator ops A E \<sigma>) W)
                  else apply_inverse ops (LincombOperator ops A E \<sigma>) W)) (\<lambda>V.
         let Y = map (map (\<lambda>x. complex_of_real (Re x + d * Im x))) V
         in ebind (lib_call (if trans_flag then apply_adjoint ops E Y else apply_op ops E Y)) (\<lambda>X.
            Inr (Z @ map (map (\<lambda>y. y * complex_of_real g)) Y
                   @ map (map (\<lambda>x. complex_of_real (Im x * g * sqrt (d\<^sup>2 + 1)))) V,
                 map2 (map2 (\<lambda>w x. w + complex_of_real (g\<^sup>2) * x)) W X,
                 j + 2))))"

subsection \<open>Notions used in the statements\<close>

text \<open>
  The contracts of the operators: \<open>batched\<close> (one result vector per argument vector)
  and \<open>real_operators\<close> (real arrays are mapped to real arrays). \<open>weight\<close> counts the
  index steps of a list of consumed shifts.
\<close>

definition batched :: "'op operators \<Rightarrow> 'op \<Rightarrow> 'op \<Rightarrow> bool" where
  \<comment> \<open>the operators' contract: one result vector per argument vector\<close>
  "batched ops A E \<longleftrightarrow>
     (\<forall>V V'. apply_op ops E V = Some V' \<longrightarrow> length V' = length V) \<and>
     (\<forall>V V'. apply_adjoint ops E V = Some V' \<longrightarrow> length V' = length V) \<and>
     (\<forall>c V V'. apply_inverse ops (LincombOperator ops A E c) V = Some V' \<longrightarrow> length V' = length V) \<and>
     (\<forall>c V V'. apply_inverse_adjoint ops (LincombOperator ops A E c) V = Some V'
        \<longrightarrow> length V' = length V)"

definition real_operators :: "'op operators \<Rightarrow> 'op \<Rightarrow> 'op \<Rightarrow> bool" where
  \<comment> \<open>\<open>A\<close> and \<open>E\<close> are real: \<open>E\<close> and the solves with a real shift map real arrays to
      real arrays\<close>
  "real_operators ops A E \<longleftrightarrow>
     (\<forall>V V'. is_real_array V \<longrightarrow> apply_op ops E V = Some V' \<longrightarrow> is_real_array V') \<and>
     (\<forall>V V'. is_real_array V \<longrightarrow> apply_adjoint ops E V = Some V' \<longrightarrow> is_real_array V') \<and>
     (\<forall>c V V'. is_real_array V \<longrightarrow>
        apply_inverse ops (LincombOperator ops A E (complex_of_real c)) V = Some V'
        \<longrightarrow> is_real_array V') \<and>
     (\<forall>c V V'. is_real_array V \<longrightarrow>
        apply_inverse_adjoint ops (LincombOperator ops A E (complex_of_real c)) V = Some V'
        \<longrightarrow> is_real_array V')"

definition weight :: "complex list \<Rightarrow> nat" where
  \<comment> \<open>1 for a real shift, 2 for a complex one, summed over a list of consumed shifts\<close>
  "weight ss = sum_list (map (\<lambda>s. if Im s = 0 then 1 else 2) ss)"

text \<open>
  Shifts in conjugate-paired order, as the eigenvalue routine of LAPACK returns them for a
  real pencil: a complex shift with positive imaginary part is directly followed by its
  conjugate. \<open>unit_starts k shifts\<close> lists the positions (counted from \<open>k\<close>) at which the
  driver starts a step: it advances by 1 on a real shift and by 2 on a complex one.
\<close>

fun paired :: "complex list \<Rightarrow> bool" where
  "paired [] = True"
| "paired [x] = (Im x = 0)"
| "paired (x # y # ys) =
     (if Im x = 0 then paired (y # ys) else 0 < Im x \<and> y = cnj x \<and> paired ys)"

fun unit_starts :: "nat \<Rightarrow> complex list \<Rightarrow> nat list" where
  "unit_starts k [] = []"
| "unit_starts k [x] = [k]"
| "unit_starts k (x # y # ys) =
     k # (if Im x = 0 then unit_starts (k + 1) (y # ys) else unit_starts (k + 2) ys)"

text \<open>
  The subspaces on which the loop of \<open>projection_shifts_init\<close> attempts the projection, in
  the order of the attempts, and the error it raises when the attempts are used up.
\<close>

fun init_tried ::
  "'rng numlib \<Rightarrow> 'op operators \<Rightarrow> 'op \<Rightarrow> 'op \<Rightarrow> shift_opts \<Rightarrow> nat list \<Rightarrow> varray \<Rightarrow> 'rng
     \<Rightarrow> varray list" where
  "init_tried lib ops A E so [] B rng = []"
| "init_tried lib ops A E so (i # is) B rng =
     B # (case init_attempt lib ops A E B of
            Inr [] \<Rightarrow>
              (case random_subspace lib so i B rng of
                 Inr (B', rng') \<Rightarrow> init_tried lib ops A E so is B' rng'
               | Inl e \<Rightarrow> [])
          | _ \<Rightarrow> [])"

definition init_error :: error where
  "init_error = RuntimeError ''Could not generate initial shifts for low-rank ADI iteration.''"

subsection \<open>An instance: operators on a one-dimensional space\<close>

text \<open>
  An operator on the one-dimensional space is multiplication by a scalar. The numerical
  routines are given for one-by-one matrices; the eigenvalue routine is a parameter:
  \<open>eig1\<close> is the eigenvalue of a one-by-one pencil, \<open>eig_table\<close> answers a prescribed list
  (to evaluate runs with complex shifts). The generator's state is a counter.
  \<open>given_options\<close> is an option parser that takes complete options as they are.
\<close>

definition scalar_ops :: "complex operators" where
  "scalar_ops =
     \<lparr>linear = (\<lambda>a. True),
      source_space = (\<lambda>a. 1),
      range_space = (\<lambda>a. 1),
      apply_op = (\<lambda>a V. Some (map (map (\<lambda>x. a * x)) V)),
      apply_adjoint = (\<lambda>a V. Some (map (map (\<lambda>x. cnj a * x)) V)),
      apply_inverse = (\<lambda>a V. if a = 0 then None else Some (map (map (\<lambda>x. x / a)) V)),
      apply_inverse_adjoint = (\<lambda>a V. if a = 0 then None else Some (map (map (\<lambda>x. x / cnj a)) V)),
      apply2 = (\<lambda>a V U. Some (map (\<lambda>v. map (\<lambda>u. inner v (map (\<lambda>x. a * x) u)) U) V)),
      as_range_array = (\<lambda>b. [[b]]),
      as_source_array = (\<lambda>b. [[b]]),
      LincombOperator = (\<lambda>a e c. a + c * e),
      IdentityOperator = (\<lambda>a. 1)\<rparr>"

definition eig1 :: "matrix \<Rightarrow> matrix \<Rightarrow> complex list option" where
  \<comment> \<open>the eigenvalue of a one-by-one pencil\<close>
  "eig1 Ap Ep =
     (case (Ap, Ep) of
        ([[a]], [[e]]) \<Rightarrow> if e = 0 then None else Some [a / e]
      | _ \<Rightarrow> None)"

definition eig_table :: "complex list \<Rightarrow> matrix \<Rightarrow> matrix \<Rightarrow> complex list option" where
  \<comment> \<open>an eigenvalue routine that answers a prescribed list\<close>
  "eig_table evs Ap Ep = Some evs"

definition scalar_lib :: "(matrix \<Rightarrow> matrix \<Rightarrow> complex list option) \<Rightarrow> nat numlib" where
  "scalar_lib ev =
     \<lparr>eigvals = ev,
      svd = (\<lambda>M. case M of [[x]] \<Rightarrow> Some ([[1]], [cmod x], [[1]]) | _ \<Rightarrow> None),
      norm2 = (\<lambda>M. case M of [[x]] \<Rightarrow> Some (cmod x) | _ \<Rightarrow> None),
      dot = (\<lambda>M N. case (M, N) of ([[x]], [[y]]) \<Rightarrow> Some [[x * y]] | _ \<Rightarrow> None),
      madd = (\<lambda>M N. case (M, N) of ([[x]], [[y]]) \<Rightarrow> Some [[x + y]] | _ \<Rightarrow> None),
      gram_schmidt = (\<lambda>V. case V of [[x]] \<Rightarrow> if x = 0 then None else Some [[x / cmod x]]
                                | _ \<Rightarrow> None),
      space_dim = (\<lambda>V. 1),
      random_seed = (\<lambda>x. Some 0),
      random_random = (\<lambda>g. (1 / 2, g + 1)),
      random_rand = (\<lambda>m n g. (replicate m (replicate n (1 / 2)), g + 1))\<rparr>"

text \<open>
  \<^verbatim>\<open>np.random.seed\<close> takes an integer seed and raises on a float. \<open>integer_seed\<close>
  is a seeding routine that refuses every seed that is not an integer, and \<open>strict_lib\<close> is
  the library above with this routine; its \<open>random_random\<close> answers \<open>1 / 2\<close>, a number
  of the interval from 0 to 1 in which \<^verbatim>\<open>np.random.random\<close> draws.
\<close>

definition integer_seed :: "real \<Rightarrow> nat option" where
  \<comment> \<open>a seeding routine that raises on a seed that is not an integer\<close>
  "integer_seed x = (if real_of_int \<lfloor>x\<rfloor> = x then Some 0 else None)"

definition strict_lib :: "nat numlib" where
  "strict_lib = (scalar_lib eig1)\<lparr>random_seed := integer_seed\<rparr>"

definition given_options :: "lyap_opts \<Rightarrow> (string \<Rightarrow> lyap_opts option) \<Rightarrow> string \<Rightarrow> lyap_opts option" where
  \<comment> \<open>an option parser that accepts complete user options as they are\<close>
  "given_options options defaults default_solver = Some options"

definition so1 :: shift_opts where
  "so1 = \<lparr>shift_type = ''projection_shifts'', z_columns = 1, init_maxiter = 20,
          init_seed = None, implicit_subspace = True\<rparr>"

definition opts1 :: lyap_opts where
  "opts1 = \<lparr>solver_type = ''lradi'', tol = 1 / 10 ^ 10, maxiter = 500,
            shifts_name = ''projection_shifts'',
            shift_options = [''projection_shifts'' \<mapsto> so1]\<rparr>"

text \<open>
  The run of the driver for \<open>A = -2\<close>, \<open>E = 1\<close>, \<open>B = 1\<close>: the first state, and
  the state after its only step.
\<close>

definition run_st0 :: lradi_state where
  "run_st0 = \<lparr>st_Z = [], st_W = [[1]], st_j = 0, st_shifts = [- 2], st_size_shift = 1,
          st_res = 1, st_log = []\<rparr>"

definition run_st1 :: lradi_state where
  "run_st1 = \<lparr>st_Z = [[- (1 / 2)]], st_W = [[0]], st_j = 1, st_shifts = [- 2, - 2],
          st_size_shift = 2, st_res = 0, st_log = [Info 1 0]\<rparr>"

text \<open>
  A run for \<open>A = -1\<close>, \<open>E = 1\<close>, \<open>B = 1\<close> with the prescribed shifts
  \<open>-1 + i, -1 - i, -2\<close> and \<open>maxiter = 1\<close>: the first state, and the state after the step
  on the conjugate pair.
\<close>

definition pair_shifts :: "complex list" where
  "pair_shifts = [Complex (- 1) 1, Complex (- 1) (- 1), - 2]"

definition pair_opts :: lyap_opts where
  "pair_opts = opts1\<lparr>maxiter := 1\<rparr>"

definition pair_st0 :: lradi_state where
  "pair_st0 = \<lparr>st_Z = [], st_W = [[1]], st_j = 0, st_shifts = pair_shifts, st_size_shift = 3,
      st_res = 1, st_log = []\<rparr>"

definition pair_st1 :: lradi_state where
  "pair_st1 = \<lparr>st_Z = [[- (2 / 5)], [complex_of_real (- (2 / 5) * sqrt 2)]], st_W = [[1 / 5]],
      st_j = 2, st_shifts = pair_shifts, st_size_shift = 3,
      st_res = 1 / 25, st_log = [Info 2 (1 / 25)]\<rparr>"

text \<open>
  Variants of the shift options and of the solver options.
\<close>

definition short_so :: shift_opts where
  "short_so = so1\<lparr>init_maxiter := 3\<rparr>"

definition seeded_so :: shift_opts where
  "seeded_so = so1\<lparr>init_seed := Some 7\<rparr>"

definition explicit_so :: shift_opts where
  "explicit_so = so1\<lparr>implicit_subspace := False\<rparr>"

definition two_so :: shift_opts where
  "two_so = so1\<lparr>z_columns := 2\<rparr>"

definition heur_so :: shift_opts where
  "heur_so = so1\<lparr>shift_type := ''heuristic_shifts''\<rparr>"

definition heur_opts :: lyap_opts where
  "heur_opts = opts1\<lparr>shifts_name := ''heuristic_shifts'',
                     shift_options := [''heuristic_shifts'' \<mapsto> heur_so]\<rparr>"

section \<open>Properties\<close>

subsection \<open>Auxiliary facts\<close>

lemma ebind_InrE:
  assumes "ebind m f = Inr y"
  obtains x where "m = Inr x" and "f x = Inr y"
  using assms by (cases m) (simp_all add: ebind_def)

lemma lradi_step_index:
  "lradi_step lib ops A E trans_flag so init_res st = Inr st' \<Longrightarrow>
   \<exists>s. py_index (st_shifts st) (int (st_j st)) = Inr s"
  by (auto simp: lradi_step_def ebind_Inr_iff)

lemma lradi_loop_run:
  "lradi_loop lib ops A E trans_flag opts so init_res Btol st = Inr st' \<Longrightarrow>
   \<exists>ss. lradi_run lib ops A E trans_flag opts so init_res Btol st ss st'"
proof (induction lib ops A E trans_flag opts so init_res Btol st rule: lradi_loop.induct)
  case (1 lib ops A E trans_flag opts so init_res Btol st)
  show ?case
  proof (cases "Btol < st_res st \<and> int (st_j st) < maxiter opts")
    case False
    with "1.prems" have "st' = st" by (subst (asm) lradi_loop_unfold) simp
    then show ?thesis by (auto intro: lradi_run.run_done)
  next
    case True
    with "1.prems" have
      "ebind (lradi_step lib ops A E trans_flag so init_res st)
          (lradi_loop lib ops A E trans_flag opts so init_res Btol) = Inr st'"
      by (subst (asm) lradi_loop_unfold) simp
    then obtain st1 where
      step: "lradi_step lib ops A E trans_flag so init_res st = Inr st1"
      and rest: "lradi_loop lib ops A E trans_flag opts so init_res Btol st1 = Inr st'"
      by (rule ebind_InrE)
    from "1.IH" [OF True step rest] obtain ss where
      "lradi_run lib ops A E trans_flag opts so init_res Btol st1 ss st'" ..
    moreover from lradi_step_index [OF step] obtain s where
      "py_index (st_shifts st) (int (st_j st)) = Inr s" ..
    ultimately have "lradi_run lib ops A E trans_flag opts so init_res Btol st (s # ss) st'"
      using True step by (intro lradi_run.run_step)
    then show ?thesis ..
  qed
qed

lemma stable_negative: "s \<in> set (stable shifts) \<Longrightarrow> Re s < 0"
  by (simp add: stable_def)

lemma init_loop_stable:
  "init_loop lib ops A E so is B rng = Inr (shifts, rng') \<Longrightarrow>
   shifts \<noteq> [] \<and> (\<forall>s\<in>set shifts. Re s < 0)"
proof (induction "is" arbitrary: B rng)
  case Nil
  then show ?case by simp
next
  case (Cons i "is")
  from Cons.prems obtain sh where
    att: "init_attempt lib ops A E B = Inr sh"
    and rest: "(if sh = [] then
         ebind (random_subspace lib so i B rng) (\<lambda>(B', rng'). init_loop lib ops A E so is B' rng')
       else Inr (sh, rng)) = Inr (shifts, rng')"
    by (auto simp: ebind_Inr_iff)
  show ?case
  proof (cases "sh = []")
    case True
    with rest obtain B' g where "init_loop lib ops A E so is B' g = Inr (shifts, rng')"
      by (auto simp: ebind_Inr_iff)
    then show ?thesis by (rule Cons.IH)
  next
    case False
    with rest have "shifts = sh" by simp
    moreover from att obtain evs where "sh = stable evs"
      by (auto simp: init_attempt_def ebind_Inr_iff)
    ultimately show ?thesis using False by (auto dest: stable_negative)
  qed
qed

lemma projection_shifts_form:
  assumes "projection_shifts lib ops A E Z W prev_shifts so = Inr out"
  shows "\<exists>evs. out = prev_shifts @ (if stable evs = [] then prev_shifts else stable evs)"
  using assms unfolding projection_shifts_def
  apply (erule_tac ebind_InrE)
  apply (simp only: split_paired_all prod.case Let_def)
  apply (erule ebind_InrE)
  apply (simp only: split_paired_all prod.case)
  apply (erule ebind_InrE)
  apply (rule_tac x = x in exI)
  apply (simp split: if_splits)
  done

lemma lradi_step_shifts:
  assumes "lradi_step lib ops A E trans_flag so init_res st = Inr st'"
  shows "st_shifts st' = st_shifts st \<or>
         (\<exists>Z W. projection_shifts lib ops A E Z W (st_shifts st) so = Inr (st_shifts st'))"
  using assms unfolding lradi_step_def
  apply (erule_tac ebind_InrE)
  apply (erule ebind_InrE)
  apply (simp only: split_paired_all prod.case)
  apply (erule ebind_InrE)
  apply (simp only: split_paired_all prod.case)
  apply (erule ebind_InrE)
  apply (cases "st_size_shift st \<le> st_j st'")
   apply (auto elim!: ebind_InrE)
  done


lemmas instance_defs =
  scalar_lib_def scalar_ops_def eig1_def so1_def opts1_def run_st0_def run_st1_def

lemmas eval_defs =
  ebind_def lib_call_def stable_def inner_def gramian_def scal_def va_sub_def va_add_def
  va_real_def va_imag_def va_conj_def lradi_step_def py_index_def real_step_def complex_step_def
  projection_shifts_def window_def py_slice_from_def implicit_pencil_def zeros_def eye_def
  kron_def cmat_def set_entry_def to_numpy_def diag_def explicit_pencil_def set_row_entries_def
  projection_shifts_init_def init_attempt_def random_subspace_def lradi_init_def Let_def
  implicit_loop.simps

lemma eval_init: "projection_shifts_init (scalar_lib eig1) scalar_ops (- 2) 1 [[1]] so1 0 = Inr ([- 2], 0)"
  by (simp add: instance_defs eval_defs upt_rec)

lemma eval_lradi_init:
  "lradi_init (scalar_lib eig1) scalar_ops (- 2) 1 1 False opts1 so1 0 = Inr (run_st0, 1, 1 / 10 ^ 10, 0)"
  by (simp add: instance_defs eval_defs upt_rec)

lemma eval_step: "lradi_step (scalar_lib eig1) scalar_ops (- 2) 1 False so1 1 run_st0 = Inr run_st1"
  by (simp add: instance_defs eval_defs)

lemma eval_projection_shifts:
  "projection_shifts (scalar_lib eig1) scalar_ops (- 2) 1 [[- (1 / 2)]] [[0]] [- 2] so1 = Inr [- 2, - 2]"
  by (simp add: instance_defs eval_defs)

lemma eval_run:
  "lradi_run (scalar_lib eig1) scalar_ops (- 2) 1 False opts1 so1 1 (1 / 10 ^ 10) run_st0 [- 2] run_st1"
proof (rule lradi_run.run_step [OF _ _ eval_step lradi_run.run_done])
  show "1 / 10 ^ 10 < st_res run_st0 \<and> int (st_j run_st0) < maxiter opts1"
    by (simp add: run_st0_def opts1_def)
  show "py_index (st_shifts run_st0) (int (st_j run_st0)) = Inr (- 2)"
    by (simp add: run_st0_def py_index_def)
qed

lemma lradi_step_negative:
  assumes "lradi_step lib ops A E trans_flag so init_res st = Inr st'"
    and "\<forall>s\<in>set (st_shifts st). Re s < 0"
  shows "\<forall>s\<in>set (st_shifts st'). Re s < 0"
proof -
  from lradi_step_shifts [OF assms(1)] show ?thesis
  proof
    assume "st_shifts st' = st_shifts st"
    with assms(2) show ?thesis by simp
  next
    assume "\<exists>Z W. projection_shifts lib ops A E Z W (st_shifts st) so = Inr (st_shifts st')"
    then obtain Z W where "projection_shifts lib ops A E Z W (st_shifts st) so = Inr (st_shifts st')"
      by blast
    from projection_shifts_form [OF this] obtain evs where
      "st_shifts st' = st_shifts st @ (if stable evs = [] then st_shifts st else stable evs)" ..
    with assms(2) show ?thesis by (auto dest: stable_negative)
  qed
qed

lemma py_index_mem: "py_index xs i = Inr x \<Longrightarrow> x \<in> set xs"
  by (auto simp: py_index_def Let_def split: if_splits)

lemma lradi_run_negative:
  assumes "lradi_run lib ops A E trans_flag opts so init_res Btol st ss st'"
    and "\<forall>s\<in>set (st_shifts st). Re s < 0"
  shows "(\<forall>s\<in>set (st_shifts st'). Re s < 0) \<and> (\<forall>s\<in>set ss. Re s < 0)"
  using assms
proof (induction rule: lradi_run.induct)
  case (run_done st)
  then show ?case by simp
next
  case (run_step st s st1 ss st')
  from run_step.hyps(2) have "s \<in> set (st_shifts st)" by (rule py_index_mem)
  with run_step.prems have "Re s < 0" by simp
  moreover from run_step.hyps(3) run_step.prems have "\<forall>s\<in>set (st_shifts st1). Re s < 0"
    by (rule lradi_step_negative)
  then have "(\<forall>s\<in>set (st_shifts st'). Re s < 0) \<and> (\<forall>s\<in>set ss. Re s < 0)"
    by (rule run_step.IH)
  ultimately show ?case by simp
qed

lemma lradi_init_shifts:
  assumes "lradi_init lib ops A E B trans_flag opts so rng = Inr (st, init_res, Btol, rng')"
  shows "\<exists>W. projection_shifts_init lib ops A E W so rng = Inr (st_shifts st, rng')"
  using assms unfolding lradi_init_def Let_def
  apply (erule_tac ebind_InrE)
  apply (simp only: split_paired_all prod.case)
  apply (erule ebind_InrE)
  apply auto
  done

subsection \<open>Stability of the shifts\<close>

text \<open>
  Claim C1. Every shift the driver consumes has a strictly negative real part: the shifts
  returned by \<open>projection_shifts_init\<close> all have negative real part;
  \<open>projection_shifts\<close> returns \<open>prev_shifts\<close> followed either by a copy of
  \<open>prev_shifts\<close> or by eigenvalues with negative real part; and in every state the
  loop of \<open>lradi\<close> reaches from its first state, all entries of the shift sequence, and
  all shifts consumed so far, have negative real part.
\<close>

theorem shifts_negative_real_part:
  "(projection_shifts_init lib ops A E W so rng = Inr (shifts, rng') \<longrightarrow>
      (\<forall>s\<in>set shifts. Re s < 0))
   \<and> (projection_shifts lib ops A E Z W' prev_shifts so = Inr shifts' \<longrightarrow>
      (\<exists>ext. shifts' = prev_shifts @ ext \<and> (ext = prev_shifts \<or> (\<forall>s\<in>set ext. Re s < 0))))
   \<and> (lradi_init lib ops A E B trans_flag opts so rng = Inr (st, init_res, Btol, rng'') \<longrightarrow>
      lradi_run lib ops A E trans_flag opts so init_res Btol st ss st' \<longrightarrow>
      (\<forall>s\<in>set (st_shifts st'). Re s < 0) \<and> (\<forall>s\<in>set ss. Re s < 0))"
proof -
  have init: "\<forall>s\<in>set shifts. Re s < 0"
    if "projection_shifts_init lib ops A E W so rng = Inr (shifts, rng')"
    using that unfolding projection_shifts_init_def by (blast dest: init_loop_stable)
  have upd: "\<exists>ext. shifts' = prev_shifts @ ext \<and> (ext = prev_shifts \<or> (\<forall>s\<in>set ext. Re s < 0))"
    if "projection_shifts lib ops A E Z W' prev_shifts so = Inr shifts'"
  proof -
    from projection_shifts_form [OF that] obtain evs where
      eq: "shifts' = prev_shifts @ (if stable evs = [] then prev_shifts else stable evs)" ..
    show ?thesis
    proof (cases "stable evs = []")
      case True
      with eq show ?thesis by simp
    next
      case False
      with eq have "shifts' = prev_shifts @ stable evs" by simp
      moreover have "\<forall>s\<in>set (stable evs). Re s < 0" by (simp add: stable_def)
      ultimately show ?thesis by blast
    qed
  qed
  have drv: "(\<forall>s\<in>set (st_shifts st'). Re s < 0) \<and> (\<forall>s\<in>set ss. Re s < 0)"
    if i: "lradi_init lib ops A E B trans_flag opts so rng = Inr (st, init_res, Btol, rng'')"
      and run: "lradi_run lib ops A E trans_flag opts so init_res Btol st ss st'"
  proof -
    from lradi_init_shifts [OF i] obtain W0 where
      "projection_shifts_init lib ops A E W0 so rng = Inr (st_shifts st, rng'')" ..
    then have "\<forall>s\<in>set (st_shifts st). Re s < 0"
      unfolding projection_shifts_init_def by (blast dest: init_loop_stable)
    with run show ?thesis by (rule lradi_run_negative)
  qed
  from init upd drv show ?thesis by blast
qed

text \<open>The run on the one-dimensional instance satisfies the three premises.\<close>

theorem shifts_negative_real_part_witness:
  "projection_shifts_init (scalar_lib eig1) scalar_ops (- 2) 1 [[1]] so1 0 = Inr ([- 2], 0)
   \<and> list_all (\<lambda>s. Re s < 0) [- 2 :: complex]
   \<and> projection_shifts (scalar_lib eig1) scalar_ops (- 2) 1 [[- (1 / 2)]] [[0]] [- 2] so1 = Inr [- 2, - 2]
   \<and> (\<exists>ext. [- 2, - 2 :: complex] = [- 2] @ ext \<and> (ext = [- 2] \<or> list_all (\<lambda>s. Re s < 0) ext))
   \<and> lradi_init (scalar_lib eig1) scalar_ops (- 2) 1 1 False opts1 so1 0 = Inr (run_st0, 1, 1 / 10 ^ 10, 0)
   \<and> lradi_run (scalar_lib eig1) scalar_ops (- 2) 1 False opts1 so1 1 (1 / 10 ^ 10) run_st0 [- 2] run_st1
   \<and> list_all (\<lambda>s. Re s < 0) (st_shifts run_st1)"
  using shifts_negative_real_part [of "scalar_lib eig1" scalar_ops "- 2" 1 "[[1]]" so1 0 "[- 2]" 0
      "[[- (1 / 2)]]" "[[0]]" "[- 2]" "[- 2, - 2]" 1 False opts1 run_st0 1 "1 / 10 ^ 10" 0 "[- 2]" run_st1]
    eval_init eval_projection_shifts eval_lradi_init eval_run
  by (simp add: list_all_iff)

subsection \<open>Columns appended per shift\<close>

lemmas pair_defs = eig_table_def pair_shifts_def pair_opts_def pair_st0_def pair_st1_def

lemma eval_pair_init:
  "lradi_init (scalar_lib (eig_table pair_shifts)) scalar_ops (- 1) 1 1 False pair_opts so1 0
     = Inr (pair_st0, 1, 1 / 10 ^ 10, 0)"
  by (simp add: instance_defs eval_defs pair_defs upt_rec)

lemma eval_pair_step:
  "lradi_step (scalar_lib (eig_table pair_shifts)) scalar_ops (- 1) 1 False so1 1 pair_st0 = Inr pair_st1"
  by (simp add: instance_defs eval_defs pair_defs complex_eq_iff Re_divide Im_divide
      power2_eq_square)

lemma eval_pair_loop:
  "lradi_loop (scalar_lib (eig_table pair_shifts)) scalar_ops (- 1) 1 False pair_opts so1 1 (1 / 10 ^ 10)
     pair_st0 = Inr pair_st1"
proof -
  have "lradi_loop (scalar_lib (eig_table pair_shifts)) scalar_ops (- 1) 1 False pair_opts so1 1
          (1 / 10 ^ 10) pair_st1 = Inr pair_st1"
    by (subst lradi_loop_unfold) (simp add: pair_st1_def pair_opts_def)
  then show ?thesis
    by (subst lradi_loop_unfold) (simp add: eval_pair_step ebind_def, simp add: pair_st0_def pair_opts_def opts1_def)
qed

lemma eval_pair_run:
  "lradi_run (scalar_lib (eig_table pair_shifts)) scalar_ops (- 1) 1 False pair_opts so1 1 (1 / 10 ^ 10)
     pair_st0 [Complex (- 1) 1] pair_st1"
proof (rule lradi_run.run_step [OF _ _ eval_pair_step lradi_run.run_done])
  show "1 / 10 ^ 10 < st_res pair_st0 \<and> int (st_j pair_st0) < maxiter pair_opts"
    by (simp add: pair_st0_def pair_opts_def opts1_def)
  show "py_index (st_shifts pair_st0) (int (st_j pair_st0)) = Inr (Complex (- 1) 1)"
    by (simp add: pair_st0_def py_index_def pair_shifts_def)
qed

lemma batched_scalar_ops: "batched scalar_ops A E"
  by (auto simp: batched_def scalar_ops_def split: if_splits)

lemma length_scal [simp]: "length (scal V c) = length V"
  by (simp add: scal_def)

lemma length_va_real [simp]: "length (va_real V) = length V"
  by (simp add: va_real_def)

lemma length_va_imag [simp]: "length (va_imag V) = length V"
  by (simp add: va_imag_def)

lemma length_va_conj [simp]: "length (va_conj V) = length V"
  by (simp add: va_conj_def)

lemma length_va_add [simp]: "length (va_add V U) = min (length V) (length U)"
  by (simp add: va_add_def)

lemma length_va_sub [simp]: "length (va_sub V U) = min (length V) (length U)"
  by (simp add: va_sub_def)

lemma real_step_blocks:
  assumes "real_step ops A E trans_flag s Z W j = Inr (Z', W', j')" and "batched ops A E"
  shows "\<exists>blk. Z' = Z @ blk \<and> length blk = length W \<and> length W' = length W \<and> j' = j + 1"
proof (cases trans_flag)
  case False
  with assms(1) obtain V EV where
    "apply_inverse ops (LincombOperator ops A E (complex_of_real (Re s))) W = Some V"
    "apply_op ops E V = Some EV"
    "Z' = Z @ scal V (sqrt (- 2 * Re s))" "W' = va_sub W (scal EV (2 * Re s))" "j' = j + 1"
    by (auto simp: real_step_def Let_def lib_call_Inr_iff elim!: ebind_InrE)
  with assms(2) show ?thesis by (auto simp: batched_def)
next
  case True
  with assms(1) obtain V EV where
    "apply_inverse_adjoint ops (LincombOperator ops A E (complex_of_real (Re s))) W = Some V"
    "apply_adjoint ops E V = Some EV"
    "Z' = Z @ scal V (sqrt (- 2 * Re s))" "W' = va_sub W (scal EV (2 * Re s))" "j' = j + 1"
    by (auto simp: real_step_def Let_def lib_call_Inr_iff elim!: ebind_InrE)
  with assms(2) show ?thesis by (auto simp: batched_def)
qed

lemma complex_step_blocks:
  assumes "complex_step ops A E trans_flag s Z W j = Inr (Z', W', j')" and "batched ops A E"
  shows "\<exists>b1 b2. Z' = Z @ b1 @ b2 \<and> length b1 = length W \<and> length b2 = length W
           \<and> length W' = length W \<and> j' = j + 2"
proof (cases trans_flag)
  case False
  with assms(1) obtain V X where
    V: "apply_inverse ops (LincombOperator ops A E s) W = Some V"
    and X: "apply_op ops E (va_add (va_real V) (scal (va_imag V) (Re s / Im s))) = Some X"
    and Z': "Z' = Z @ scal (va_add (va_real V) (scal (va_imag V) (Re s / Im s))) (2 * sqrt (- Re s))
                   @ scal (va_imag V) (2 * sqrt (- Re s) * sqrt ((Re s / Im s)\<^sup>2 + 1))"
    and W': "W' = va_add W (scal X ((2 * sqrt (- Re s))\<^sup>2))" and j': "j' = j + 2"
    by (auto simp: complex_step_def Let_def lib_call_Inr_iff elim!: ebind_InrE)
  from V assms(2) have lV: "length V = length W" by (auto simp: batched_def)
  from X assms(2) have "length X = length (va_add (va_real V) (scal (va_imag V) (Re s / Im s)))"
    unfolding batched_def by blast
  with lV have lX: "length X = length W" by simp
  from lV lX show ?thesis unfolding Z' W' j' by (intro exI conjI) (rule refl, simp_all)
next
  case True
  with assms(1) obtain V0 X where
    V: "apply_inverse_adjoint ops (LincombOperator ops A E s) W = Some V0"
    and X: "apply_adjoint ops E (va_add (va_real (va_conj V0)) (scal (va_imag (va_conj V0)) (Re s / Im s))) = Some X"
    and Z': "Z' = Z @ scal (va_add (va_real (va_conj V0)) (scal (va_imag (va_conj V0)) (Re s / Im s))) (2 * sqrt (- Re s))
                   @ scal (va_imag (va_conj V0)) (2 * sqrt (- Re s) * sqrt ((Re s / Im s)\<^sup>2 + 1))"
    and W': "W' = va_add W (scal X ((2 * sqrt (- Re s))\<^sup>2))" and j': "j' = j + 2"
    by (auto simp: complex_step_def Let_def lib_call_Inr_iff elim!: ebind_InrE)
  from V assms(2) have lV: "length V0 = length W" by (auto simp: batched_def)
  from X assms(2) have "length X = length (va_add (va_real (va_conj V0)) (scal (va_imag (va_conj V0)) (Re s / Im s)))"
    unfolding batched_def by blast
  with lV have lX: "length X = length W" by simp
  from lV lX show ?thesis unfolding Z' W' j' by (intro exI conjI) (rule refl, simp_all)
qed

lemma lradi_stepE:
  assumes "lradi_step lib ops A E trans_flag so init_res st = Inr st'"
  obtains s Z W j shifts size_shift res where
    "py_index (st_shifts st) (int (st_j st)) = Inr s"
    "(if Im s = 0 then real_step ops A E trans_flag s (st_Z st) (st_W st) (st_j st)
      else complex_step ops A E trans_flag s (st_Z st) (st_W st) (st_j st)) = Inr (Z, W, j)"
    "(if st_size_shift st \<le> j then
        ebind (projection_shifts lib ops A E Z W (st_shifts st) so) (\<lambda>shifts.
          Inr (shifts, length shifts))
      else Inr (st_shifts st, st_size_shift st)) = Inr (shifts, size_shift)"
    "norm2 lib (gramian W) = Some res"
    "st' = \<lparr>st_Z = Z, st_W = W, st_j = j, st_shifts = shifts, st_size_shift = size_shift,
            st_res = res, st_log = st_log st @ [Info j (res / init_res)]\<rparr>"
  using assms unfolding lradi_step_def
  apply (erule_tac ebind_InrE)
  apply (erule ebind_InrE)
  apply (simp only: split_paired_all prod.case)
  apply (erule ebind_InrE)
  apply (simp only: split_paired_all prod.case)
  apply (erule ebind_InrE)
  apply (simp only: lib_call_Inr_iff sum.inject)
  done

lemma lradi_step_blocks:
  assumes step: "lradi_step lib ops A E trans_flag so init_res st = Inr st'"
    and s: "py_index (st_shifts st) (int (st_j st)) = Inr s"
    and b: "batched ops A E"
  shows "length (st_W st') = length (st_W st)"
    and "Im s = 0 \<Longrightarrow>
           (\<exists>blk. st_Z st' = st_Z st @ blk \<and> length blk = length (st_W st)) \<and> st_j st' = st_j st + 1"
    and "Im s \<noteq> 0 \<Longrightarrow>
           (\<exists>b1 b2. st_Z st' = st_Z st @ b1 @ b2 \<and> length b1 = length (st_W st)
              \<and> length b2 = length (st_W st)) \<and> st_j st' = st_j st + 2"
proof -
  from step obtain s' Z W j shifts size_shift res where
    s': "py_index (st_shifts st) (int (st_j st)) = Inr s'"
    and zwj: "(if Im s' = 0 then real_step ops A E trans_flag s' (st_Z st) (st_W st) (st_j st)
      else complex_step ops A E trans_flag s' (st_Z st) (st_W st) (st_j st)) = Inr (Z, W, j)"
    and st': "st' = \<lparr>st_Z = Z, st_W = W, st_j = j, st_shifts = shifts, st_size_shift = size_shift,
            st_res = res, st_log = st_log st @ [Info j (res / init_res)]\<rparr>"
    by (rule lradi_stepE)
  from s s' have [simp]: "s' = s" by simp
  show "length (st_W st') = length (st_W st)"
  proof (cases "Im s = 0")
    case True
    with zwj have "real_step ops A E trans_flag s (st_Z st) (st_W st) (st_j st) = Inr (Z, W, j)"
      by simp
    from real_step_blocks [OF this b] st' show ?thesis by auto
  next
    case False
    with zwj have "complex_step ops A E trans_flag s (st_Z st) (st_W st) (st_j st) = Inr (Z, W, j)"
      by simp
    from complex_step_blocks [OF this b] st' show ?thesis by auto
  qed
  show "(\<exists>blk. st_Z st' = st_Z st @ blk \<and> length blk = length (st_W st)) \<and> st_j st' = st_j st + 1"
    if "Im s = 0"
  proof -
    from that zwj have "real_step ops A E trans_flag s (st_Z st) (st_W st) (st_j st) = Inr (Z, W, j)"
      by simp
    from real_step_blocks [OF this b] st' show ?thesis by auto
  qed
  show "(\<exists>b1 b2. st_Z st' = st_Z st @ b1 @ b2 \<and> length b1 = length (st_W st)
              \<and> length b2 = length (st_W st)) \<and> st_j st' = st_j st + 2"
    if "Im s \<noteq> 0"
  proof -
    from that zwj have "complex_step ops A E trans_flag s (st_Z st) (st_W st) (st_j st) = Inr (Z, W, j)"
      by simp
    from complex_step_blocks [OF this b] st' show ?thesis by auto
  qed
qed

lemma lradi_run_columns:
  assumes "lradi_run lib ops A E trans_flag opts so init_res Btol st ss st'"
    and "batched ops A E"
  shows "length (st_Z st') = length (st_Z st) + weight ss * length (st_W st)
         \<and> st_j st' = st_j st + weight ss \<and> length (st_W st') = length (st_W st)"
  using assms
proof (induction rule: lradi_run.induct)
  case (run_done st)
  then show ?case by (simp add: weight_def)
next
  case (run_step st s st1 ss st')
  note blocks = lradi_step_blocks [OF run_step.hyps(3) run_step.hyps(2) run_step.prems]
  from run_step.IH [OF run_step.prems] have
    IH: "length (st_Z st') = length (st_Z st1) + weight ss * length (st_W st1)"
      "st_j st' = st_j st1 + weight ss" "length (st_W st') = length (st_W st1)"
    by simp_all
  show ?case
  proof (cases "Im s = 0")
    case True
    with blocks(2) obtain blk where "st_Z st1 = st_Z st @ blk" "length blk = length (st_W st)"
      "st_j st1 = st_j st + 1" by blast
    with IH blocks(1) True show ?thesis by (simp add: weight_def)
  next
    case False
    with blocks(3) obtain b1 b2 where "st_Z st1 = st_Z st @ b1 @ b2" "length b1 = length (st_W st)"
      "length b2 = length (st_W st)" "st_j st1 = st_j st + 2" by blast
    with IH blocks(1) False show ?thesis by (simp add: weight_def algebra_simps)
  qed
qed

lemma lradi_init_state:
  assumes "lradi_init lib ops A E B trans_flag opts so rng = Inr (st, init_res, Btol, rng')"
  shows "st_Z st = [] \<and> st_j st = 0 \<and> st_size_shift st = length (st_shifts st)
         \<and> st_W st = (if \<not> trans_flag then as_range_array ops B else as_source_array ops B)
         \<and> st_res st = init_res \<and> Btol = init_res * tol opts \<and> st_log st = []
         \<and> norm2 lib (gramian (st_W st)) = Some init_res"
  using assms unfolding lradi_init_def Let_def
  apply (erule_tac ebind_InrE)
  apply (simp only: split_paired_all prod.case)
  apply (erule ebind_InrE)
  apply (auto simp: lib_call_Inr_iff)
  done

text \<open>
Claim C2. With operators that return one vector per argument vector, a step of \<open>lradi\<close>
  on a real shift appends exactly one block of \<open>r\<close> vectors to \<open>Z\<close> and advances
  \<open>j\<close> by 1, a step on a complex shift appends exactly two such blocks and advances
  \<open>j\<close> by 2, where \<open>r\<close> is the length of \<open>W\<close>; and when the loop ends, the length
  of \<open>Z\<close> is the sum over the consumed shifts of 1 (real) or 2 (complex), times \<open>r\<close>.
\<close>

theorem columns_per_shift:
  "batched ops A E \<longrightarrow>
     (lradi_step lib ops A E trans_flag so init_res st = Inr st' \<longrightarrow>
      py_index (st_shifts st) (int (st_j st)) = Inr s \<longrightarrow>
        (Im s = 0 \<longrightarrow>
           (\<exists>blk. st_Z st' = st_Z st @ blk \<and> length blk = length (st_W st))
           \<and> st_j st' = st_j st + 1) \<and>
        (Im s \<noteq> 0 \<longrightarrow>
           (\<exists>b1 b2. st_Z st' = st_Z st @ b1 @ b2 \<and> length b1 = length (st_W st)
              \<and> length b2 = length (st_W st))
           \<and> st_j st' = st_j st + 2))
     \<and> (lradi_init lib ops A E B trans_flag opts so rng = Inr (st0, init_res, Btol, rng') \<longrightarrow>
        lradi_loop lib ops A E trans_flag opts so init_res Btol st0 = Inr st_end \<longrightarrow>
          (\<exists>ss. lradi_run lib ops A E trans_flag opts so init_res Btol st0 ss st_end
             \<and> length (st_Z st_end) = weight ss * length (st_W st0)
             \<and> st_j st_end = weight ss))"
proof (intro impI)
  assume b: "batched ops A E"
  have step: "(Im s = 0 \<longrightarrow>
           (\<exists>blk. st_Z st' = st_Z st @ blk \<and> length blk = length (st_W st))
           \<and> st_j st' = st_j st + 1) \<and>
        (Im s \<noteq> 0 \<longrightarrow>
           (\<exists>b1 b2. st_Z st' = st_Z st @ b1 @ b2 \<and> length b1 = length (st_W st)
              \<and> length b2 = length (st_W st))
           \<and> st_j st' = st_j st + 2)"
    if "lradi_step lib ops A E trans_flag so init_res st = Inr st'"
      and "py_index (st_shifts st) (int (st_j st)) = Inr s"
    using lradi_step_blocks(2,3) [OF that b] by blast
  have total: "\<exists>ss. lradi_run lib ops A E trans_flag opts so init_res Btol st0 ss st_end
             \<and> length (st_Z st_end) = weight ss * length (st_W st0)
             \<and> st_j st_end = weight ss"
    if i: "lradi_init lib ops A E B trans_flag opts so rng = Inr (st0, init_res, Btol, rng')"
      and l: "lradi_loop lib ops A E trans_flag opts so init_res Btol st0 = Inr st_end"
  proof -
    from lradi_loop_run [OF l] obtain ss where
      run: "lradi_run lib ops A E trans_flag opts so init_res Btol st0 ss st_end" ..
    from lradi_init_state [OF i] have "st_Z st0 = []" "st_j st0 = 0" by simp_all
    with lradi_run_columns [OF run b] run show ?thesis by auto
  qed
  from step total show "(lradi_step lib ops A E trans_flag so init_res st = Inr st' \<longrightarrow>
      py_index (st_shifts st) (int (st_j st)) = Inr s \<longrightarrow>
        (Im s = 0 \<longrightarrow>
           (\<exists>blk. st_Z st' = st_Z st @ blk \<and> length blk = length (st_W st))
           \<and> st_j st' = st_j st + 1) \<and>
        (Im s \<noteq> 0 \<longrightarrow>
           (\<exists>b1 b2. st_Z st' = st_Z st @ b1 @ b2 \<and> length b1 = length (st_W st)
              \<and> length b2 = length (st_W st))
           \<and> st_j st' = st_j st + 2))
     \<and> (lradi_init lib ops A E B trans_flag opts so rng = Inr (st0, init_res, Btol, rng') \<longrightarrow>
        lradi_loop lib ops A E trans_flag opts so init_res Btol st0 = Inr st_end \<longrightarrow>
          (\<exists>ss. lradi_run lib ops A E trans_flag opts so init_res Btol st0 ss st_end
             \<and> length (st_Z st_end) = weight ss * length (st_W st0)
             \<and> st_j st_end = weight ss))"
    by blast
qed

text \<open>
  A step on the complex shift \<open>-1 + i\<close>, and the run it belongs to.
\<close>

theorem columns_per_shift_witness:
  "batched scalar_ops (- 1) 1
   \<and> lradi_step (scalar_lib (eig_table pair_shifts)) scalar_ops (- 1) 1 False so1 1 pair_st0 = Inr pair_st1
   \<and> py_index (st_shifts pair_st0) (int (st_j pair_st0)) = Inr (Complex (- 1) 1)
   \<and> Im (Complex (- 1) 1) \<noteq> 0
   \<and> (\<exists>b1 b2. st_Z pair_st1 = st_Z pair_st0 @ b1 @ b2 \<and> length b1 = length (st_W pair_st0)
              \<and> length b2 = length (st_W pair_st0))
   \<and> st_j pair_st1 = st_j pair_st0 + 2
   \<and> lradi_init (scalar_lib (eig_table pair_shifts)) scalar_ops (- 1) 1 1 False pair_opts so1 0
       = Inr (pair_st0, 1, 1 / 10 ^ 10, 0)
   \<and> lradi_loop (scalar_lib (eig_table pair_shifts)) scalar_ops (- 1) 1 False pair_opts so1 1 (1 / 10 ^ 10)
       pair_st0 = Inr pair_st1
   \<and> (\<exists>ss. lradi_run (scalar_lib (eig_table pair_shifts)) scalar_ops (- 1) 1 False pair_opts so1 1
              (1 / 10 ^ 10) pair_st0 ss pair_st1
         \<and> length (st_Z pair_st1) = weight ss * length (st_W pair_st0)
         \<and> st_j pair_st1 = weight ss)"
proof -
  have idx: "py_index (st_shifts pair_st0) (int (st_j pair_st0)) = Inr (Complex (- 1) 1)"
    by (simp add: pair_st0_def py_index_def pair_shifts_def)
  have im: "Im (Complex (- 1) 1) \<noteq> 0" by simp
  from columns_per_shift [of scalar_ops "- 1" 1 "scalar_lib (eig_table pair_shifts)" False so1 1
      pair_st0 pair_st1 "Complex (- 1) 1" 1 pair_opts 0 pair_st0 "1 / 10 ^ 10" 0 pair_st1]
    batched_scalar_ops [of "- 1" 1] eval_pair_step idx eval_pair_init eval_pair_loop im
  show ?thesis by blast
qed

subsection \<open>The iteration index and the budget\<close>

lemma lradi_run_bound:
  assumes "lradi_run lib ops A E trans_flag opts so init_res Btol st ss st'"
  shows "int (st_j st') \<le> max (int (st_j st)) (maxiter opts + 1)"
  using assms
proof (induction rule: lradi_run.induct)
  case (run_done st)
  then show ?case by simp
next
  case (run_step st s st1 ss st')
  from lradi_step_j [OF run_step.hyps(3)] run_step.hyps(1)
  have "int (st_j st1) \<le> maxiter opts + 1" by auto
  with run_step.IH show ?case by simp
qed

text \<open>
Claim C10. The index \<open>j\<close> can exceed \<open>maxiter\<close> by exactly one. For a nonnegative
  \<open>maxiter\<close>, when the loop of \<open>lradi\<close> ends, \<open>j \<le> maxiter + 1\<close>; and \<open>j \<le> maxiter\<close>
  fails on the run with \<open>maxiter = 1\<close> whose first shift is complex: the step entered at
  \<open>j = maxiter - 1 = 0\<close> ends with \<open>j = 2 = maxiter + 1\<close>.
\<close>

theorem index_exceeds_maxiter_by_one:
  "(0 \<le> maxiter opts \<longrightarrow>
    lradi_init lib ops A E B trans_flag opts so rng = Inr (st0, init_res, Btol, rng') \<longrightarrow>
    lradi_loop lib ops A E trans_flag opts so init_res Btol st0 = Inr st_end \<longrightarrow>
      int (st_j st_end) \<le> maxiter opts + 1)
   \<and> (lradi_init (scalar_lib (eig_table pair_shifts)) scalar_ops (- 1) 1 1 False pair_opts so1 0
         = Inr (pair_st0, 1, 1 / 10 ^ 10, 0)
      \<and> lradi_loop (scalar_lib (eig_table pair_shifts)) scalar_ops (- 1) 1 False pair_opts so1 1
           (1 / 10 ^ 10) pair_st0 = Inr pair_st1
      \<and> int (st_j pair_st1) = maxiter pair_opts + 1
      \<and> \<not> int (st_j pair_st1) \<le> maxiter pair_opts)"
proof -
  have bound: "int (st_j st_end) \<le> maxiter opts + 1"
    if m: "0 \<le> maxiter opts"
      and i: "lradi_init lib ops A E B trans_flag opts so rng = Inr (st0, init_res, Btol, rng')"
      and l: "lradi_loop lib ops A E trans_flag opts so init_res Btol st0 = Inr st_end"
  proof -
    from lradi_loop_run [OF l] obtain ss where
      "lradi_run lib ops A E trans_flag opts so init_res Btol st0 ss st_end" ..
    from lradi_run_bound [OF this] lradi_init_state [OF i] m show ?thesis by simp
  qed
  have "int (st_j pair_st1) = maxiter pair_opts + 1"
    by (simp add: pair_st1_def pair_opts_def)
  with bound eval_pair_init eval_pair_loop show ?thesis by simp
qed

text \<open>
  The bound, on the same run.
\<close>

theorem index_exceeds_maxiter_by_one_witness:
  "0 \<le> maxiter pair_opts
   \<and> lradi_init (scalar_lib (eig_table pair_shifts)) scalar_ops (- 1) 1 1 False pair_opts so1 0
         = Inr (pair_st0, 1, 1 / 10 ^ 10, 0)
   \<and> lradi_loop (scalar_lib (eig_table pair_shifts)) scalar_ops (- 1) 1 False pair_opts so1 1
           (1 / 10 ^ 10) pair_st0 = Inr pair_st1
   \<and> int (st_j pair_st1) \<le> maxiter pair_opts + 1"
proof -
  have m: "0 \<le> maxiter pair_opts" by (simp add: pair_opts_def)
  from index_exceeds_maxiter_by_one [of pair_opts "scalar_lib (eig_table pair_shifts)" scalar_ops
      "- 1" 1 1 False so1 0 pair_st0 1 "1 / 10 ^ 10" 0 pair_st1] m eval_pair_init eval_pair_loop
  show ?thesis by blast
qed

subsection \<open>The loop guard and the iteration budget\<close>

lemma lradi_step_res:
  assumes "lradi_step lib ops A E trans_flag so init_res st = Inr st'"
  shows "norm2 lib (gramian (st_W st')) = Some (st_res st')"
  using assms by (rule lradi_stepE) simp

lemma lradi_run_res:
  assumes "lradi_run lib ops A E trans_flag opts so init_res Btol st ss st'"
    and "norm2 lib (gramian (st_W st)) = Some (st_res st)"
  shows "norm2 lib (gramian (st_W st')) = Some (st_res st')"
  using assms
proof (induction rule: lradi_run.induct)
  case (run_done st)
  then show ?case by simp
next
  case (run_step st s st1 ss st')
  from run_step.hyps(3) have "norm2 lib (gramian (st_W st1)) = Some (st_res st1)"
    by (rule lradi_step_res)
  then show ?case by (rule run_step.IH)
qed

lemma lradi_loop_exit:
  "lradi_loop lib ops A E trans_flag opts so init_res Btol st = Inr st' \<Longrightarrow>
   \<not> (Btol < st_res st' \<and> int (st_j st') < maxiter opts)"
proof (induction lib ops A E trans_flag opts so init_res Btol st rule: lradi_loop.induct)
  case (1 lib ops A E trans_flag opts so init_res Btol st)
  show ?case
  proof (cases "Btol < st_res st \<and> int (st_j st) < maxiter opts")
    case False
    with "1.prems" have "st' = st" by (subst (asm) lradi_loop_unfold) simp
    with False show ?thesis by simp
  next
    case True
    with "1.prems" have
      "ebind (lradi_step lib ops A E trans_flag so init_res st)
          (lradi_loop lib ops A E trans_flag opts so init_res Btol) = Inr st'"
      by (subst (asm) lradi_loop_unfold) simp
    then obtain st1 where
      step: "lradi_step lib ops A E trans_flag so init_res st = Inr st1"
      and rest: "lradi_loop lib ops A E trans_flag opts so init_res Btol st1 = Inr st'"
      by (rule ebind_InrE)
    from True step rest show ?thesis by (rule "1.IH")
  qed
qed

lemma lradi_result:
  assumes "shift_options opts (shifts_name opts) = Some so"
    and "shift_type so = ''projection_shifts''"
    and "E' = (case E of None \<Rightarrow> IdentityOperator ops A | Some X \<Rightarrow> X)"
    and "lradi_init lib ops A E' B trans_flag opts so rng = Inr (st0, init_res, Btol, rng')"
    and "lradi_loop lib ops A E' trans_flag opts so init_res Btol st0 = Inr st_end"
  shows "lradi lib ops A E B trans_flag opts rng = Inr (lradi_finish opts init_res Btol st_end, rng')"
  using assms by (simp add: lradi_def ebind_def)

text \<open>
Claim C5. \<open>lradi\<close> iterates exactly while \<open>res > tol * init_res\<close> and
  \<open>j < maxiter\<close>: the states of a run are those at which the guard held, and the loop ends in
  a state at which it fails; \<open>init_res\<close> is the spectral norm of the gramian of the first
  \<open>W\<close>, and in the last state \<open>res\<close> is that of the current \<open>W\<close>. When the
  loop ends with the tolerance missed, the budget is used up, no error is raised: \<open>lradi\<close>
  returns the accumulated \<open>Z\<close>, and the log ends with the warning that reports
  \<open>res / init_res\<close>, \<open>tol\<close> and \<open>maxiter\<close>. When the tolerance is met there is no
  warning.
\<close>

theorem loop_guard_and_budget:
  "shift_options opts (shifts_name opts) = Some so \<longrightarrow>
   shift_type so = ''projection_shifts'' \<longrightarrow>
   E' = (case E of None \<Rightarrow> IdentityOperator ops A | Some X \<Rightarrow> X) \<longrightarrow>
   lradi_init lib ops A E' B trans_flag opts so rng = Inr (st0, init_res, Btol, rng') \<longrightarrow>
   lradi_loop lib ops A E' trans_flag opts so init_res Btol st0 = Inr st_end \<longrightarrow>
     norm2 lib (gramian (st_W st0)) = Some init_res
     \<and> Btol = init_res * tol opts
     \<and> norm2 lib (gramian (st_W st_end)) = Some (st_res st_end)
     \<and> (\<exists>ss. lradi_run lib ops A E' trans_flag opts so init_res Btol st0 ss st_end)
     \<and> \<not> (Btol < st_res st_end \<and> int (st_j st_end) < maxiter opts)
     \<and> (Btol < st_res st_end \<longrightarrow>
          maxiter opts \<le> int (st_j st_end)
          \<and> lradi lib ops A E B trans_flag opts rng =
              Inr ((st_Z st_end,
                    st_log st_end @ [Warning (st_res st_end / init_res) (tol opts) (maxiter opts)]),
                   rng'))
     \<and> (\<not> Btol < st_res st_end \<longrightarrow>
          lradi lib ops A E B trans_flag opts rng = Inr ((st_Z st_end, st_log st_end), rng'))"
proof (intro impI)
  assume so: "shift_options opts (shifts_name opts) = Some so"
    and ty: "shift_type so = ''projection_shifts''"
    and E': "E' = (case E of None \<Rightarrow> IdentityOperator ops A | Some X \<Rightarrow> X)"
    and i: "lradi_init lib ops A E' B trans_flag opts so rng = Inr (st0, init_res, Btol, rng')"
    and l: "lradi_loop lib ops A E' trans_flag opts so init_res Btol st0 = Inr st_end"
  from lradi_init_state [OF i] have
    n0: "norm2 lib (gramian (st_W st0)) = Some init_res" and bt: "Btol = init_res * tol opts"
    and r0: "st_res st0 = init_res"
    by blast+
  from lradi_loop_run [OF l] obtain ss where
    run: "lradi_run lib ops A E' trans_flag opts so init_res Btol st0 ss st_end" ..
  from n0 r0 have "norm2 lib (gramian (st_W st0)) = Some (st_res st0)" by simp
  with run have nend: "norm2 lib (gramian (st_W st_end)) = Some (st_res st_end)"
    by (rule lradi_run_res)
  note ex = lradi_loop_exit [OF l]
  note res = lradi_result [OF so ty E' i l]
  have w: "maxiter opts \<le> int (st_j st_end)
          \<and> lradi lib ops A E B trans_flag opts rng =
              Inr ((st_Z st_end,
                    st_log st_end @ [Warning (st_res st_end / init_res) (tol opts) (maxiter opts)]),
                   rng')"
    if "Btol < st_res st_end"
    using that ex res by (simp add: lradi_finish_def)
  have nw: "lradi lib ops A E B trans_flag opts rng = Inr ((st_Z st_end, st_log st_end), rng')"
    if "\<not> Btol < st_res st_end"
    using that res by (simp add: lradi_finish_def)
  from n0 bt nend run ex w nw
  show "norm2 lib (gramian (st_W st0)) = Some init_res
     \<and> Btol = init_res * tol opts
     \<and> norm2 lib (gramian (st_W st_end)) = Some (st_res st_end)
     \<and> (\<exists>ss. lradi_run lib ops A E' trans_flag opts so init_res Btol st0 ss st_end)
     \<and> \<not> (Btol < st_res st_end \<and> int (st_j st_end) < maxiter opts)
     \<and> (Btol < st_res st_end \<longrightarrow>
          maxiter opts \<le> int (st_j st_end)
          \<and> lradi lib ops A E B trans_flag opts rng =
              Inr ((st_Z st_end,
                    st_log st_end @ [Warning (st_res st_end / init_res) (tol opts) (maxiter opts)]),
                   rng'))
     \<and> (\<not> Btol < st_res st_end \<longrightarrow>
          lradi lib ops A E B trans_flag opts rng = Inr ((st_Z st_end, st_log st_end), rng'))"
    by blast
qed

text \<open>
  The run with \<open>maxiter = 1\<close> stops with the tolerance missed.
\<close>

theorem loop_guard_and_budget_witness:
  "shift_options pair_opts (shifts_name pair_opts) = Some so1
   \<and> shift_type so1 = ''projection_shifts''
   \<and> (1 :: complex) = (case None of None \<Rightarrow> IdentityOperator scalar_ops (- 1) | Some X \<Rightarrow> X)
   \<and> lradi_init (scalar_lib (eig_table pair_shifts)) scalar_ops (- 1) 1 1 False pair_opts so1 0
         = Inr (pair_st0, 1, 1 / 10 ^ 10, 0)
   \<and> lradi_loop (scalar_lib (eig_table pair_shifts)) scalar_ops (- 1) 1 False pair_opts so1 1
           (1 / 10 ^ 10) pair_st0 = Inr pair_st1
   \<and> 1 / 10 ^ 10 < st_res pair_st1
   \<and> maxiter pair_opts \<le> int (st_j pair_st1)
   \<and> lradi (scalar_lib (eig_table pair_shifts)) scalar_ops (- 1) None 1 False pair_opts 0 =
        Inr ((st_Z pair_st1,
              st_log pair_st1 @ [Warning (st_res pair_st1 / 1) (tol pair_opts) (maxiter pair_opts)]), 0)"
proof -
  have a: "shift_options pair_opts (shifts_name pair_opts) = Some so1"
    by (simp add: pair_opts_def opts1_def)
  have b: "shift_type so1 = ''projection_shifts''" by (simp add: so1_def)
  have c: "(1 :: complex) = (case None of None \<Rightarrow> IdentityOperator scalar_ops (- 1) | Some X \<Rightarrow> X)"
    by (simp add: scalar_ops_def)
  have d: "1 / 10 ^ 10 < st_res pair_st1" by (simp add: pair_st1_def)
  from loop_guard_and_budget [where opts = pair_opts and so = so1 and E' = 1 and E = None
      and ops = scalar_ops and A = "- 1" and lib = "scalar_lib (eig_table pair_shifts)" and B = 1
      and trans_flag = False and rng = 0 and ?st0.0 = pair_st0 and init_res = 1
      and Btol = "1 / 10 ^ 10" and rng' = 0 and st_end = pair_st1]
    a b c d eval_pair_init eval_pair_loop
  show ?thesis by blast
qed

subsection \<open>Unknown solver type and shift strategy\<close>

text \<open>
Claim C8. An unknown solver type makes \<open>solve_lyap\<close> fail: when the option parser returns
  options whose type is not \<open>lradi\<close>, the result is the \<open>ValueError\<close> of the unknown
  solver type (or the assertion error of the argument check, which comes first). An
  unrecognised shift strategy makes \<open>lradi\<close> fail before anything is computed: a name that
  has no entry in \<open>shift_options\<close> gives a \<open>KeyError\<close>, an entry of a type other than
  \<open>projection_shifts\<close> gives the \<open>ValueError\<close> of the unknown strategy, and this for every
  library and every operator, so that no shift generation, no solve and no other library call
  can have taken place.
\<close>

theorem unknown_configuration:
  "(parse_options options lyap_solver_options ''lradi'' = Some opts \<longrightarrow>
    solver_type opts \<noteq> ''lradi'' \<longrightarrow>
      (solve_lyap_check_args ops A E B trans_flag = Inr () \<longrightarrow>
         solve_lyap parse_options lib ops A E B trans_flag options rng
           = Inl (ValueError ''Unknown solver type''))
      \<and> (\<forall>e. solve_lyap_check_args ops A E B trans_flag = Inl e \<longrightarrow>
         solve_lyap parse_options lib ops A E B trans_flag options rng = Inl e))
   \<and> (shift_options opts' (shifts_name opts') = None \<longrightarrow>
        lradi lib ops A E B trans_flag opts' rng = Inl (KeyError (shifts_name opts')))
   \<and> (shift_options opts' (shifts_name opts') = Some so \<longrightarrow>
      shift_type so \<noteq> ''projection_shifts'' \<longrightarrow>
        lradi lib ops A E B trans_flag opts' rng = Inl (ValueError ''Unknown lradi shift strategy''))"
  by (simp add: solve_lyap_def lradi_def ebind_def lib_call_def)

text \<open>
  A solver type, a strategy name and a strategy type that are not known.
\<close>

theorem unknown_configuration_witness:
  "given_options (opts1\<lparr>solver_type := ''pymess''\<rparr>) lyap_solver_options ''lradi''
      = Some (opts1\<lparr>solver_type := ''pymess''\<rparr>)
   \<and> solver_type (opts1\<lparr>solver_type := ''pymess''\<rparr>) \<noteq> ''lradi''
   \<and> solve_lyap_check_args scalar_ops (- 2) None 1 False = Inr ()
   \<and> solve_lyap given_options (scalar_lib eig1) scalar_ops (- 2) None 1 False
        (opts1\<lparr>solver_type := ''pymess''\<rparr>) 0 = Inl (ValueError ''Unknown solver type'')
   \<and> shift_options (opts1\<lparr>shifts_name := ''wachspress''\<rparr>)
        (shifts_name (opts1\<lparr>shifts_name := ''wachspress''\<rparr>)) = None
   \<and> lradi (scalar_lib eig1) scalar_ops (- 2) None 1 False (opts1\<lparr>shifts_name := ''wachspress''\<rparr>) 0
        = Inl (KeyError ''wachspress'')
   \<and> shift_options heur_opts (shifts_name heur_opts) = Some heur_so
   \<and> shift_type heur_so \<noteq> ''projection_shifts''
   \<and> lradi (scalar_lib eig1) scalar_ops (- 2) None 1 False heur_opts 0
        = Inl (ValueError ''Unknown lradi shift strategy'')"
proof -
  have a: "given_options (opts1\<lparr>solver_type := ''pymess''\<rparr>) lyap_solver_options ''lradi''
      = Some (opts1\<lparr>solver_type := ''pymess''\<rparr>)"
    by (simp add: given_options_def)
  have b: "solver_type (opts1\<lparr>solver_type := ''pymess''\<rparr>) \<noteq> ''lradi''" by simp
  have c: "solve_lyap_check_args scalar_ops (- 2) None 1 False = Inr ()"
    by (simp add: solve_lyap_check_args_def scalar_ops_def)
  have d: "shift_options (opts1\<lparr>shifts_name := ''wachspress''\<rparr>)
        (shifts_name (opts1\<lparr>shifts_name := ''wachspress''\<rparr>)) = None"
    by (simp add: opts1_def)
  have e: "shifts_name (opts1\<lparr>shifts_name := ''wachspress''\<rparr>) = ''wachspress''" by simp
  have f: "shift_options heur_opts (shifts_name heur_opts) = Some heur_so"
    by (simp add: heur_opts_def)
  have g: "shift_type heur_so \<noteq> ''projection_shifts''" by (simp add: heur_so_def)
  note t1 = unknown_configuration [where parse_options = given_options
      and options = "opts1\<lparr>solver_type := ''pymess''\<rparr>" and opts = "opts1\<lparr>solver_type := ''pymess''\<rparr>"
      and lib = "scalar_lib eig1" and ops = scalar_ops and A = "- 2" and E = None and B = 1
      and trans_flag = False and rng = 0 and opts' = "opts1\<lparr>shifts_name := ''wachspress''\<rparr>"
      and so = heur_so]
  note t2 = unknown_configuration [where parse_options = given_options
      and options = "opts1\<lparr>solver_type := ''pymess''\<rparr>" and opts = "opts1\<lparr>solver_type := ''pymess''\<rparr>"
      and lib = "scalar_lib eig1" and ops = scalar_ops and A = "- 2" and E = None and B = 1
      and trans_flag = False and rng = 0 and opts' = heur_opts and so = heur_so]
  from t1 t2 a b c d e f g show ?thesis by metis
qed

subsection \<open>Seeded initial shifts\<close>





subsection \<open>Exhaustion of the initial shifts\<close>

lemma init_loop_exhausted:
  assumes "list_all (\<lambda>B'. init_attempt lib ops A E B' = Inr []) (init_tried lib ops A E so is B rng)"
    and "\<forall>i B' g. \<exists>r. random_subspace lib so i B' g = Inr r"
  shows "init_loop lib ops A E so is B rng = Inl init_error
         \<and> length (init_tried lib ops A E so is B rng) = length is"
  using assms(1)
proof (induction "is" arbitrary: B rng)
  case Nil
  show ?case by (simp add: init_error_def)
next
  case (Cons i "is")
  from assms(2) obtain B' g where r: "random_subspace lib so i B rng = Inr (B', g)"
    by (metis surj_pair)
  from Cons.prems have a: "init_attempt lib ops A E B = Inr []" by simp
  with Cons.prems r have
    "list_all (\<lambda>B'. init_attempt lib ops A E B' = Inr []) (init_tried lib ops A E so is B' g)"
    by simp
  from Cons.IH [OF this] a r show ?case by (simp add: ebind_def)
qed

lemma init_loop_runtime_error:
  assumes "init_loop lib ops A E so is B rng = Inl (RuntimeError m)"
  shows "length (init_tried lib ops A E so is B rng) = length is
         \<and> list_all (\<lambda>B'. init_attempt lib ops A E B' = Inr []) (init_tried lib ops A E so is B rng)"
  using assms
proof (induction "is" arbitrary: B rng)
  case Nil
  show ?case by simp
next
  case (Cons i "is")
  from Cons.prems obtain sh where a: "init_attempt lib ops A E B = Inr sh"
    by (cases "init_attempt lib ops A E B")
      (auto simp: ebind_def init_attempt_def lib_call_def split: option.splits sum.splits)
  with Cons.prems have sh: "sh = []" by (auto simp: ebind_def split: if_splits)
  with a Cons.prems obtain B' g where r: "random_subspace lib so i B rng = Inr (B', g)"
    and rest: "init_loop lib ops A E so is B' g = Inl (RuntimeError m)"
    by (cases "random_subspace lib so i B rng")
      (auto simp: ebind_def random_subspace_def lib_call_def Let_def
            split: option.splits sum.splits prod.splits)
  from Cons.IH [OF rest] a sh r show ?case by simp
qed

lemma eval_init_tried:
  "init_tried (scalar_lib eig1) scalar_ops 2 1 short_so [0..<nat (init_maxiter short_so)] [[1]] 0
     = [[[1]], [[1 / 2]], [[1 / 2]]]"
  by (simp add: short_so_def so1_def upt_rec init_attempt_def random_subspace_def scalar_lib_def
      scalar_ops_def eig1_def ebind_def lib_call_def stable_def inner_def)

lemma eval_init_attempt:
  "init_attempt (scalar_lib eig1) scalar_ops 2 1 [[1]] = Inr []"
  "init_attempt (scalar_lib eig1) scalar_ops 2 1 [[1 / 2]] = Inr []"
  by (simp_all add: init_attempt_def scalar_lib_def scalar_ops_def eig1_def ebind_def lib_call_def
      stable_def inner_def)

lemma random_subspace_unseeded:
  "init_seed so = None \<Longrightarrow>
     random_subspace lib so i B rng = Inr (random_rand lib (length B) (space_dim lib B) rng)"
  by (simp add: random_subspace_def ebind_def)

text \<open>
  Without a seed. \<open>init_tried\<close> lists the subspaces on which the loop of
  \<open>projection_shifts_init\<close> attempts the projection. For a nonnegative \<open>init_maxiter\<close> and
  no configured seed: when no attempt yields an eigenvalue with negative real part, on the
  initial subspace and on every drawn replacement, the initializer raises its
  \<open>RuntimeError\<close> and has made exactly \<open>init_maxiter\<close> attempts. With or without a seed,
  that error is raised only after \<open>init_maxiter\<close> attempts that all found no stable
  eigenvalue, never after fewer; and a returned shift set is never empty.
\<close>

lemma init_exhaustion_unseeded:
  "(init_seed so = None \<longrightarrow> 0 \<le> init_maxiter so \<longrightarrow>
    list_all (\<lambda>B'. init_attempt lib ops A E B' = Inr [])
      (init_tried lib ops A E so [0..<nat (init_maxiter so)] B rng) \<longrightarrow>
      projection_shifts_init lib ops A E B so rng = Inl init_error
      \<and> int (length (init_tried lib ops A E so [0..<nat (init_maxiter so)] B rng)) = init_maxiter so)
   \<and> (0 \<le> init_maxiter so \<longrightarrow>
      projection_shifts_init lib ops A E B so rng = Inl (RuntimeError m) \<longrightarrow>
        int (length (init_tried lib ops A E so [0..<nat (init_maxiter so)] B rng)) = init_maxiter so
        \<and> list_all (\<lambda>B'. init_attempt lib ops A E B' = Inr [])
            (init_tried lib ops A E so [0..<nat (init_maxiter so)] B rng))
   \<and> (projection_shifts_init lib ops A E B so rng = Inr (shifts, rng') \<longrightarrow> shifts \<noteq> [])"
proof -
  have one: "projection_shifts_init lib ops A E B so rng = Inl init_error
      \<and> int (length (init_tried lib ops A E so [0..<nat (init_maxiter so)] B rng)) = init_maxiter so"
    if "0 \<le> init_maxiter so"
      and "list_all (\<lambda>B'. init_attempt lib ops A E B' = Inr [])
             (init_tried lib ops A E so [0..<nat (init_maxiter so)] B rng)"
      and "init_seed so = None"
  proof -
    from that(3) have "\<forall>i B' g. \<exists>r. random_subspace lib so i B' g = Inr r"
      by (simp add: random_subspace_unseeded)
    from init_loop_exhausted [OF that(2) this] that(1) show ?thesis
      by (simp add: projection_shifts_init_def)
  qed
  have two: "int (length (init_tried lib ops A E so [0..<nat (init_maxiter so)] B rng)) = init_maxiter so
        \<and> list_all (\<lambda>B'. init_attempt lib ops A E B' = Inr [])
            (init_tried lib ops A E so [0..<nat (init_maxiter so)] B rng)"
    if "0 \<le> init_maxiter so"
      and "projection_shifts_init lib ops A E B so rng = Inl (RuntimeError m)"
    using init_loop_runtime_error [of lib ops A E so "[0..<nat (init_maxiter so)]" B rng m] that
    by (simp add: projection_shifts_init_def)
  have three: "shifts \<noteq> []"
    if "projection_shifts_init lib ops A E B so rng = Inr (shifts, rng')"
    using that unfolding projection_shifts_init_def by (blast dest: init_loop_stable)
  from one two three show ?thesis by blast
qed

text \<open>
  Three attempts on the unstable instance \<open>A = 2\<close>, and the stable instance \<open>A = -2\<close>.
\<close>

lemma init_exhaustion_unseeded_instance:
  "init_seed short_so = None
   \<and> 0 \<le> init_maxiter short_so
   \<and> init_tried (scalar_lib eig1) scalar_ops 2 1 short_so [0..<nat (init_maxiter short_so)] [[1]] 0
       = [[[1]], [[1 / 2]], [[1 / 2]]]
   \<and> list_all (\<lambda>B'. init_attempt (scalar_lib eig1) scalar_ops 2 1 B' = Inr [])
       [[[1]], [[1 / 2]], [[1 / 2]]]
   \<and> projection_shifts_init (scalar_lib eig1) scalar_ops 2 1 [[1]] short_so 0 = Inl init_error
   \<and> int (length (init_tried (scalar_lib eig1) scalar_ops 2 1 short_so
                     [0..<nat (init_maxiter short_so)] [[1]] 0)) = init_maxiter short_so
   \<and> projection_shifts_init (scalar_lib eig1) scalar_ops (- 2) 1 [[1]] so1 0 = Inr ([- 2], 0)
   \<and> [- 2 :: complex] \<noteq> []"
proof -
  have a: "0 \<le> init_maxiter short_so" by (simp add: short_so_def)
  have b: "list_all (\<lambda>B'. init_attempt (scalar_lib eig1) scalar_ops 2 1 B' = Inr [])
       [[[1]], [[1 / 2]], [[1 / 2]]]"
    by (simp add: eval_init_attempt)
  have c: "init_seed short_so = None" by (simp add: short_so_def so1_def)
  have b': "list_all (\<lambda>B'. init_attempt (scalar_lib eig1) scalar_ops 2 1 B' = Inr [])
       (init_tried (scalar_lib eig1) scalar_ops 2 1 short_so [0..<nat (init_maxiter short_so)] [[1]] 0)"
    unfolding eval_init_tried by (rule b)
  from init_exhaustion_unseeded [where so = short_so and lib = "scalar_lib eig1" and ops = scalar_ops
      and A = 2 and E = 1 and B = "[[1]]" and rng = 0] a b' c
  have e: "projection_shifts_init (scalar_lib eig1) scalar_ops 2 1 [[1]] short_so 0 = Inl init_error
   \<and> int (length (init_tried (scalar_lib eig1) scalar_ops 2 1 short_so
                     [0..<nat (init_maxiter short_so)] [[1]] 0)) = init_maxiter short_so"
    by blast
  have f: "[- 2 :: complex] \<noteq> []" by simp
  from c a eval_init_tried b e eval_init f show ?thesis by (intro conjI) (elim conjE, assumption)+
qed

lemma integer_seed_int: "integer_seed (real_of_int n) = Some 0"
  by (simp add: integer_seed_def)

lemma integer_seed_half: "integer_seed (1 / 2 + real i) = None"
proof -
  have f: "\<lfloor>1 / 2 + real i\<rfloor> = int i" by linarith
  have "real_of_int (int i) \<noteq> 1 / 2 + real i" by simp
  then show ?thesis unfolding integer_seed_def f by simp
qed

lemma eval_seeded_attempt: "init_attempt strict_lib scalar_ops 2 1 [[1]] = Inr []"
  by (simp add: strict_lib_def init_attempt_def scalar_lib_def scalar_ops_def eig1_def ebind_def
      lib_call_def stable_def inner_def)

lemma eval_seeded_first: "random_seed strict_lib (real_of_int 7) = Some 0"
  using integer_seed_int [of 7] by (simp add: strict_lib_def scalar_lib_def)

lemma eval_seeded_random: "random_random strict_lib 0 = (1 / 2, 1)"
  by (simp add: strict_lib_def scalar_lib_def)

lemma eval_seeded_second: "random_seed strict_lib (1 / 2 + real i) = None"
  using integer_seed_half [of i] by (simp add: strict_lib_def scalar_lib_def)

lemma eval_seeded_draw: "random_subspace strict_lib seeded_so i B g = Inl LibraryError"
proof -
  have "random_random strict_lib g' = (1 / 2, g' + 1)" for g'
    by (simp add: strict_lib_def scalar_lib_def)
  with eval_seeded_first eval_seeded_second [of i] show ?thesis
    by (simp add: random_subspace_def seeded_so_def ebind_def lib_call_def)
qed

lemma eval_seeded_init:
  "projection_shifts_init strict_lib scalar_ops 2 1 [[1]] seeded_so g = Inl LibraryError"
proof -
  have "[0..<nat (init_maxiter seeded_so)] = 0 # [1..<20]"
    by (simp add: seeded_so_def so1_def upt_conv_Cons)
  then show ?thesis
    by (simp add: projection_shifts_init_def eval_seeded_attempt eval_seeded_draw ebind_def)
qed

lemma eval_seeded_tried:
  "init_tried strict_lib scalar_ops 2 1 seeded_so [0..<nat (init_maxiter seeded_so)] [[1]] g = [[[1]]]"
proof -
  have "[0..<nat (init_maxiter seeded_so)] = 0 # [1..<20]"
    by (simp add: seeded_so_def so1_def upt_conv_Cons)
  then show ?thesis
    by (simp add: eval_seeded_attempt eval_seeded_draw)
qed

text \<open>
Claim C6. The claim does not hold of the code when a seed is configured. On the pencil
  \<open>A = 2\<close>, \<open>E = 1\<close> with \<open>B = 1\<close>, \<open>init_seed = 7\<close> and \<open>init_maxiter = 20\<close>, the
  projection on the initial subspace yields no eigenvalue with negative real part, so the
  premise of the claim holds of every subspace that is tried; the retry seeds the generator
  with 7, which is accepted, and then with \<^verbatim>\<open>np.random.random() + i\<close>, a float, which the
  seeding routine refuses. The initializer raises that error, not its \<open>RuntimeError\<close>, and
  it has made one attempt, not \<open>init_maxiter\<close>.
\<close>

theorem seeded_retry_raises:
  "init_seed seeded_so = Some 7
   \<and> init_maxiter seeded_so = 20
   \<and> init_attempt strict_lib scalar_ops 2 1 [[1]] = Inr []
   \<and> random_seed strict_lib (real_of_int 7) = Some 0
   \<and> random_random strict_lib 0 = (1 / 2, 1)
   \<and> random_seed strict_lib (1 / 2 + real 0) = None
   \<and> random_subspace strict_lib seeded_so 0 [[1]] g = Inl LibraryError
   \<and> projection_shifts_init strict_lib scalar_ops 2 1 [[1]] seeded_so g = Inl LibraryError
   \<and> projection_shifts_init strict_lib scalar_ops 2 1 [[1]] seeded_so g \<noteq> Inl init_error
   \<and> init_tried strict_lib scalar_ops 2 1 seeded_so [0..<nat (init_maxiter seeded_so)] [[1]] g
       = [[[1]]]
   \<and> int (length (init_tried strict_lib scalar_ops 2 1 seeded_so
                     [0..<nat (init_maxiter seeded_so)] [[1]] g)) = 1"
proof -
  have a: "init_seed seeded_so = Some 7" "init_maxiter seeded_so = 20"
    by (simp_all add: seeded_so_def so1_def)
  have b: "projection_shifts_init strict_lib scalar_ops 2 1 [[1]] seeded_so g \<noteq> Inl init_error"
    by (simp add: eval_seeded_init init_error_def)
  have c: "int (length (init_tried strict_lib scalar_ops 2 1 seeded_so
                     [0..<nat (init_maxiter seeded_so)] [[1]] g)) = 1"
    by (simp add: eval_seeded_tried)
  from a eval_seeded_attempt eval_seeded_first eval_seeded_random eval_seeded_second [of 0]
    eval_seeded_draw [of 0 "[[1]]" g] eval_seeded_init [of g] b eval_seeded_tried [of g] c
  show ?thesis by (intro conjI)
qed

subsection \<open>The projection window\<close>

lemma paired_positions:
  "paired xs \<Longrightarrow> k < length xs \<Longrightarrow>
     (if Im (xs ! k) < 0
      then 0 < k \<and> 0 < Im (xs ! (k - 1)) \<and> n + (k - 1) \<in> set (unit_starts n xs)
      else n + k \<in> set (unit_starts n xs))"
proof (induction xs arbitrary: k n rule: paired.induct)
  case 1
  then show ?case by simp
next
  case (2 x)
  then show ?case by simp
next
  case (3 x y ys)
  show ?case
  proof (cases "Im x = 0")
    case True
    with "3.prems" have p: "paired (y # ys)" by simp
    show ?thesis
    proof (cases k)
      case 0
      with True show ?thesis by simp
    next
      case (Suc k')
      with "3.prems" have "k' < length (y # ys)" by simp
      from "3.IH"(1) [OF True p this, of "n + 1"] Suc True show ?thesis
        by (cases k') (auto split: if_splits)
    qed
  next
    case False
    with "3.prems" have im: "0 < Im x" and y: "y = cnj x" and p: "paired ys" by simp_all
    show ?thesis
    proof (cases k)
      case 0
      with im show ?thesis by simp
    next
      case (Suc k')
      show ?thesis
      proof (cases k')
        case 0
        with Suc im y False show ?thesis by simp
      next
        case (Suc k'')
        with \<open>k = Suc k'\<close> "3.prems" have "k'' < length ys" by simp
        from "3.IH"(2) [OF False p this, of "n + 2"] Suc \<open>k = Suc k'\<close> False show ?thesis
          by (cases k'') (auto split: if_splits)
      qed
    qed
  qed
qed

lemma slice_trailing:
  assumes Z: "length Z = L * r" and k: "int k = int L - u" and kL: "k < L"
  shows "py_slice_from Z (- u * int r) = drop (k * r) Z"
proof -
  from k have "u = int L - int k" by simp
  then have u: "- u * int r = int (k * r) - int (L * r)"
    by (simp add: left_diff_distrib)
  show ?thesis
  proof (cases "r = 0")
    case True
    with Z show ?thesis by (simp add: py_slice_from_def)
  next
    case False
    with kL have "k * r < L * r" by simp
    then have "int (k * r) - int (L * r) < 0" by simp
    moreover have "nat (int (length Z) + (int (k * r) - int (L * r))) = k * r"
      unfolding Z by (simp del: of_nat_mult)
    ultimately show ?thesis unfolding py_slice_from_def u by (simp del: of_nat_mult)
  qed
qed

lemma slice_leading:
  assumes k: "int k = - u"
  shows "py_slice_from Z (- u * int r) = drop (k * r) Z"
proof -
  from k have u: "- u * int r = int (k * r)" by simp
  show ?thesis unfolding py_slice_from_def u by (simp del: of_nat_mult)
qed

lemma windowE:
  assumes "window zc prev_shifts = Inr (u, d)"
  obtains s where "py_index prev_shifts (- min zc (int (length prev_shifts))) = Inr s"
    and "u = (if Im s < 0 then min zc (int (length prev_shifts)) + 1
              else min zc (int (length prev_shifts)))"
    and "d = nat (int (length prev_shifts) - zc)"
proof -
  have m: "(if int (length prev_shifts) - zc < 0 then int (length prev_shifts) else zc)
           = min zc (int (length prev_shifts))"
    by (simp add: min_def)
  have n: "nat (if int (length prev_shifts) - zc < 0 then 0 else int (length prev_shifts) - zc)
           = nat (int (length prev_shifts) - zc)"
    by simp
  from assms have
    "ebind (py_index prev_shifts (- min zc (int (length prev_shifts)))) (\<lambda>s.
       Inr (if Im s < 0 then min zc (int (length prev_shifts)) + 1
            else min zc (int (length prev_shifts)), nat (int (length prev_shifts) - zc)))
     = Inr (u, d)"
    unfolding window_def Let_def m n .
  then obtain s where "py_index prev_shifts (- min zc (int (length prev_shifts))) = Inr s"
    and "Inr (if Im s < 0 then min zc (int (length prev_shifts)) + 1
            else min zc (int (length prev_shifts)), nat (int (length prev_shifts) - zc))
         = (Inr (u, d) :: error + int \<times> nat)"
    by (rule ebind_InrE)
  then show ?thesis using that by simp
qed

lemma window_no_split:
  assumes p: "paired prev_shifts"
    and Z: "length Z = length prev_shifts * r"
    and w: "window zc prev_shifts = Inr (u, d)"
  shows "\<exists>k\<in>set (unit_starts 0 prev_shifts). py_slice_from Z (- u * int r) = drop (k * r) Z"
proof -
  define L where "L = length prev_shifts"
  define u0 where "u0 = min zc (int L)"
  from w obtain s where s: "py_index prev_shifts (- u0) = Inr s"
    and u: "u = (if Im s < 0 then u0 + 1 else u0)"
    unfolding u0_def L_def by (rule windowE)
  define k0 where "k0 = (if 0 < u0 then nat (int L - u0) else nat (- u0))"
  from s have k0: "k0 < L" and sk: "s = prev_shifts ! k0"
    and ik: "int k0 = (if 0 < u0 then int L - u0 else - u0)"
    unfolding py_index_def Let_def k0_def L_def by (auto split: if_splits)
  note pos = paired_positions [OF p k0 [unfolded L_def], of 0, folded sk]
  show ?thesis
  proof (cases "Im s < 0")
    case True
    with pos have k1: "0 < k0" and mem: "k0 - 1 \<in> set (unit_starts 0 prev_shifts)" by simp_all
    from True u have u': "u = u0 + 1" by simp
    have "py_slice_from Z (- u * int r) = drop ((k0 - 1) * r) Z"
    proof (cases "0 < u0")
      case True
      with ik k1 u' have "int (k0 - 1) = int L - u" by simp
      moreover from k0 have "k0 - 1 < L" by simp
      ultimately show ?thesis using Z unfolding L_def by (intro slice_trailing)
    next
      case False
      with ik k1 u' have "int (k0 - 1) = - u" by simp
      then show ?thesis by (rule slice_leading)
    qed
    with mem show ?thesis by blast
  next
    case False
    with pos have mem: "k0 \<in> set (unit_starts 0 prev_shifts)" by simp
    from False u have u': "u = u0" by simp
    have "py_slice_from Z (- u * int r) = drop (k0 * r) Z"
    proof (cases "0 < u0")
      case True
      with ik u' have "int k0 = int L - u" by simp
      with k0 show ?thesis using Z unfolding L_def by (intro slice_trailing)
    next
      case False
      with ik u' have "int k0 = - u" by simp
      then show ?thesis by (rule slice_leading)
    qed
    with mem show ?thesis by blast
  qed
qed

lemma window_defined:
  assumes "1 \<le> zc" and "prev_shifts \<noteq> []"
  shows "(\<exists>u d. window zc prev_shifts = Inr (u, d))
         \<and> py_index prev_shifts (- min zc (int (length prev_shifts)))
             = Inr (prev_shifts ! nat (int (length prev_shifts) - min zc (int (length prev_shifts))))"
proof -
  from assms have "0 < length prev_shifts" by simp
  with assms(1) have
    i: "py_index prev_shifts (- min zc (int (length prev_shifts)))
         = Inr (prev_shifts ! nat (int (length prev_shifts) - min zc (int (length prev_shifts))))"
    by (simp add: py_index_def Let_def min_def)
  have m: "(if int (length prev_shifts) - zc < 0 then int (length prev_shifts) else zc)
           = min zc (int (length prev_shifts))"
    by (simp add: min_def)
  have "\<exists>u d. window zc prev_shifts = Inr (u, d)"
    unfolding window_def Let_def m i by (simp add: ebind_def)
  with i show ?thesis by simp
qed

lemma paired_pair_shifts: "paired pair_shifts"
  by (simp add: pair_shifts_def complex_eq_iff)

lemma eval_window: "window 2 pair_shifts = Inr (3, 1)"
  by (simp add: window_def pair_shifts_def py_index_def ebind_def Let_def)

text \<open>
Claim C7. The window size \<open>u\<close> of \<open>projection_shifts\<close> is \<open>z_columns\<close> clipped to the
  number of previous shifts, plus one exactly when the shift at the window boundary
  (\<^verbatim>\<open>prev_shifts[-u]\<close>, for \<open>z_columns \<ge> 1\<close> the first of the trailing shifts counted by the
  clipped value) has a negative imaginary part. \<open>paired\<close> says that the shifts come as the
  eigenvalue routine orders them, a complex shift with positive imaginary part directly
  followed by its conjugate; \<open>unit_starts\<close> lists the positions at which the driver starts
  a step (a real shift or the first shift of a pair). For paired shifts and a \<open>Z\<close> that holds
  one block of \<open>r\<close> vectors per shift, the window \<^verbatim>\<open>Z[-u * r:]\<close> begins with the block of a
  unit start: it never begins between the two blocks of a conjugate pair.
\<close>

theorem window_size_and_pairs:
  "(window zc prev_shifts = Inr (u, d) \<longrightarrow>
      (\<exists>s. py_index prev_shifts (- min zc (int (length prev_shifts))) = Inr s
          \<and> u = (if Im s < 0 then min zc (int (length prev_shifts)) + 1
                  else min zc (int (length prev_shifts)))))
   \<and> (1 \<le> zc \<longrightarrow> prev_shifts \<noteq> [] \<longrightarrow>
        (\<exists>u' d'. window zc prev_shifts = Inr (u', d'))
        \<and> py_index prev_shifts (- min zc (int (length prev_shifts)))
            = Inr (prev_shifts ! nat (int (length prev_shifts) - min zc (int (length prev_shifts)))))
   \<and> (paired prev_shifts \<longrightarrow> length Z = length prev_shifts * r \<longrightarrow>
      window zc prev_shifts = Inr (u, d) \<longrightarrow>
        (\<exists>k\<in>set (unit_starts 0 prev_shifts). py_slice_from Z (- u * int r) = drop (k * r) Z))"
proof -
  have one: "\<exists>s. py_index prev_shifts (- min zc (int (length prev_shifts))) = Inr s
          \<and> u = (if Im s < 0 then min zc (int (length prev_shifts)) + 1
                  else min zc (int (length prev_shifts)))"
    if "window zc prev_shifts = Inr (u, d)"
    using that by (rule windowE) blast
  from one window_defined [of zc prev_shifts] window_no_split [of prev_shifts Z r zc u d]
  show ?thesis by blast
qed

text \<open>
  The window for \<open>z_columns = 2\<close> on the shifts \<open>-1 + i, -1 - i, -2\<close>: the boundary is the
  second shift of the pair, \<open>u\<close> becomes 3 and the window is all of \<open>Z\<close>.
\<close>

theorem window_size_and_pairs_witness:
  "window 2 pair_shifts = Inr (3, 1)
   \<and> (\<exists>s. py_index pair_shifts (- min 2 (int (length pair_shifts))) = Inr s
          \<and> (3 :: int) = (if Im s < 0 then min 2 (int (length pair_shifts)) + 1
                  else min 2 (int (length pair_shifts))))
   \<and> (1 :: int) \<le> 2 \<and> pair_shifts \<noteq> []
   \<and> paired pair_shifts
   \<and> length [[1], [2], [3 :: complex]] = length pair_shifts * 1
   \<and> (\<exists>k\<in>set (unit_starts 0 pair_shifts).
         py_slice_from [[1], [2], [3 :: complex]] (- 3 * int 1) = drop (k * 1) [[1], [2], [3]])"
proof -
  have a: "(1 :: int) \<le> 2" by simp
  have b: "pair_shifts \<noteq> []" by (simp add: pair_shifts_def)
  have c: "length [[1], [2], [3 :: complex]] = length pair_shifts * 1"
    by (simp add: pair_shifts_def)
  from window_size_and_pairs [of 2 pair_shifts 3 1 "[[1], [2], [3]]" 1]
    eval_window a b c paired_pair_shifts
  show ?thesis by blast
qed

subsection \<open>The extended shift sequence\<close>

lemma eval_implicit_loop_pair2:
  "implicit_loop [Complex (- 1) 1, Complex (- 1) (- 1), - 2] (Suc 0) 3 iR iC (Suc (Suc 0)) B G
     = Inl IndexError"
  by (subst implicit_loop.simps) (simp add: Let_def)

lemma eval_implicit_loop_pair:
  "implicit_loop pair_shifts (Suc 0) 3 iR iC 0 B G = Inl IndexError"
  by (subst implicit_loop.simps) (simp add: pair_shifts_def Let_def eval_implicit_loop_pair2)

lemma eval_implicit_pencil_pair:
  "implicit_pencil lib ops E Vu W pair_shifts 3 (Suc 0) = Inl IndexError"
  by (simp add: implicit_pencil_def Let_def eval_implicit_loop_pair ebind_def)

lemma eval_projection_shifts_pair:
  "projection_shifts lib ops A E Z W pair_shifts two_so = Inl IndexError"
  by (simp add: projection_shifts_def two_so_def so1_def eval_window eval_implicit_pencil_pair
      ebind_def Let_def)

lemma eval_implicit_pencil:
  "implicit_pencil (scalar_lib eig1) scalar_ops 1
     (py_slice_from [[- (1 / 2)]] (- 1 * int (length [[0 :: complex]]))) [[0]] [- 2] 1 0
   = Inr ([[- 2]], [[1]])"
  by (simp add: instance_defs eval_defs real_sqrt_divide)

lemma projection_shifts_returns:
  assumes "window (z_columns so) prev_shifts = Inr (u, d)"
    and "(if implicit_subspace so
          then implicit_pencil lib ops E (py_slice_from Z (- u * int (length W))) W prev_shifts u d
          else explicit_pencil lib ops A E (py_slice_from Z (- u * int (length W)))) = Inr (Ap, Ep)"
    and "eigvals lib Ap Ep = Some evs"
  shows "projection_shifts lib ops A E Z W prev_shifts so
         = Inr (prev_shifts @ (if stable evs = [] then prev_shifts else stable evs))"
  using assms
  by (cases "implicit_subspace so") (simp_all add: projection_shifts_def ebind_def lib_call_def Let_def)

lemma projection_shifts_returned:
  assumes "projection_shifts lib ops A E Z W prev_shifts so = Inr out"
  shows "\<exists>u d Ap Ep evs.
           window (z_columns so) prev_shifts = Inr (u, d)
           \<and> (if implicit_subspace so
                then implicit_pencil lib ops E (py_slice_from Z (- u * int (length W))) W prev_shifts u d
                else explicit_pencil lib ops A E (py_slice_from Z (- u * int (length W))))
               = Inr (Ap, Ep)
           \<and> eigvals lib Ap Ep = Some evs
           \<and> out = prev_shifts @ (if stable evs = [] then prev_shifts else stable evs)"
  using assms unfolding projection_shifts_def
  apply (erule_tac ebind_InrE)
  apply (simp only: split_paired_all prod.case Let_def)
  apply (erule ebind_InrE)
  apply (simp only: split_paired_all prod.case)
  apply (erule ebind_InrE)
  apply (simp only: lib_call_Inr_iff)
  apply (rule_tac x = a in exI)
  apply (rule_tac x = b in exI)
  apply (rule_tac x = aa in exI)
  apply (rule_tac x = ba in exI)
  apply (rule_tac x = x in exI)
  apply (simp split: if_splits)
  done

lemma eval_explicit_pencil:
  "explicit_pencil (scalar_lib eig1) scalar_ops 2 1
     (py_slice_from [[- (1 / 2)]] (- 1 * int (length [[0 :: complex]]))) = Inr ([[2]], [[1]])"
  by (simp add: instance_defs eval_defs)

lemma eval_window_one: "window 1 [- 2] = Inr (1, 0)"
  by (simp add: window_def py_index_def ebind_def Let_def)

lemma eval_pair_step_first:
  "lradi_step (scalar_lib (eig_table pair_shifts)) scalar_ops (- 1) 1 False two_so 1 pair_st0
     = Inr pair_st1"
  by (simp add: instance_defs eval_defs pair_defs two_so_def complex_eq_iff Re_divide Im_divide
      power2_eq_square)

lemma eval_pair_step_two:
  "lradi_step (scalar_lib (eig_table pair_shifts)) scalar_ops (- 1) 1 False two_so 1 pair_st1
     = Inl IndexError"
proof -
  have "py_index (st_shifts pair_st1) (int (st_j pair_st1)) = Inr (- 2)"
    by (simp add: pair_st1_def pair_shifts_def py_index_def)
  moreover have "\<exists>Z W. real_step scalar_ops (- 1) 1 False (- 2) (st_Z pair_st1) (st_W pair_st1)
                    (st_j pair_st1) = Inr (Z, W, 3)"
    by (simp add: real_step_def scalar_ops_def pair_st1_def ebind_def lib_call_def Let_def)
  moreover have "st_shifts pair_st1 = pair_shifts" "st_size_shift pair_st1 = 3"
    by (simp_all add: pair_st1_def)
  ultimately show ?thesis
    by (auto simp: lradi_step_def ebind_def eval_projection_shifts_pair)
qed

text \<open>
  What \<open>projection_shifts\<close> returns when it returns. Whenever the window, the projected
  pencil and its eigenvalues are computed without an exception, the result is \<open>prev_shifts\<close>
  followed by the eigenvalues with negative real part, or by a copy of \<open>prev_shifts\<close> when
  there are none. Every sequence it returns arises in this way, has \<open>prev_shifts\<close> as a
  prefix, and is strictly longer than a nonempty \<open>prev_shifts\<close>.
\<close>

lemma projection_shifts_postcondition:
  "(window (z_columns so) prev_shifts = Inr (u, d) \<longrightarrow>
    (if implicit_subspace so
     then implicit_pencil lib ops E (py_slice_from Z (- u * int (length W))) W prev_shifts u d
     else explicit_pencil lib ops A E (py_slice_from Z (- u * int (length W)))) = Inr (Ap, Ep) \<longrightarrow>
    eigvals lib Ap Ep = Some evs \<longrightarrow>
      projection_shifts lib ops A E Z W prev_shifts so
        = Inr (prev_shifts @ (if stable evs = [] then prev_shifts else stable evs)))
   \<and> (projection_shifts lib ops A E Z W prev_shifts so = Inr out \<longrightarrow>
      (\<exists>u' d' Ap' Ep' evs'.
          window (z_columns so) prev_shifts = Inr (u', d')
          \<and> (if implicit_subspace so
               then implicit_pencil lib ops E (py_slice_from Z (- u' * int (length W))) W
                      prev_shifts u' d'
               else explicit_pencil lib ops A E (py_slice_from Z (- u' * int (length W))))
              = Inr (Ap', Ep')
          \<and> eigvals lib Ap' Ep' = Some evs'
          \<and> out = prev_shifts @ (if stable evs' = [] then prev_shifts else stable evs'))
      \<and> take (length prev_shifts) out = prev_shifts
      \<and> (prev_shifts \<noteq> [] \<longrightarrow> length prev_shifts < length out))"
proof -
  have ret: "(\<exists>u' d' Ap' Ep' evs'.
          window (z_columns so) prev_shifts = Inr (u', d')
          \<and> (if implicit_subspace so
               then implicit_pencil lib ops E (py_slice_from Z (- u' * int (length W))) W
                      prev_shifts u' d'
               else explicit_pencil lib ops A E (py_slice_from Z (- u' * int (length W))))
              = Inr (Ap', Ep')
          \<and> eigvals lib Ap' Ep' = Some evs'
          \<and> out = prev_shifts @ (if stable evs' = [] then prev_shifts else stable evs'))
      \<and> take (length prev_shifts) out = prev_shifts
      \<and> (prev_shifts \<noteq> [] \<longrightarrow> length prev_shifts < length out)"
    if r: "projection_shifts lib ops A E Z W prev_shifts so = Inr out"
  proof -
    note ex = projection_shifts_returned [OF r]
    then obtain evs' where
      "out = prev_shifts @ (if stable evs' = [] then prev_shifts else stable evs')" by blast
    then have "take (length prev_shifts) out = prev_shifts"
      and "prev_shifts \<noteq> [] \<longrightarrow> length prev_shifts < length out"
      by (simp_all split: if_splits)
    with ex show ?thesis by blast
  qed
  from ret projection_shifts_returns [of so prev_shifts u d lib ops E Z W A Ap Ep evs]
  show ?thesis by blast
qed

text \<open>
  Fresh eigenvalues on the stable instance, and duplication on the unstable instance with the
  explicit subspace.
\<close>

lemma projection_shifts_postcondition_instance:
  "window (z_columns so1) [- 2] = Inr (1, 0)
   \<and> (if implicit_subspace so1
       then implicit_pencil (scalar_lib eig1) scalar_ops 1
              (py_slice_from [[- (1 / 2)]] (- 1 * int (length [[0 :: complex]]))) [[0]] [- 2] 1 0
       else explicit_pencil (scalar_lib eig1) scalar_ops (- 2) 1
              (py_slice_from [[- (1 / 2)]] (- 1 * int (length [[0 :: complex]]))))
      = Inr ([[- 2]], [[1]])
   \<and> eigvals (scalar_lib eig1) [[- 2]] [[1]] = Some [- 2]
   \<and> projection_shifts (scalar_lib eig1) scalar_ops (- 2) 1 [[- (1 / 2)]] [[0]] [- 2] so1
       = Inr ([- 2] @ (if stable [- 2] = [] then [- 2] else stable [- 2]))
   \<and> window (z_columns explicit_so) [- 2] = Inr (1, 0)
   \<and> (if implicit_subspace explicit_so
       then implicit_pencil (scalar_lib eig1) scalar_ops 1
              (py_slice_from [[- (1 / 2)]] (- 1 * int (length [[0 :: complex]]))) [[0]] [- 2] 1 0
       else explicit_pencil (scalar_lib eig1) scalar_ops 2 1
              (py_slice_from [[- (1 / 2)]] (- 1 * int (length [[0 :: complex]]))))
      = Inr ([[2]], [[1]])
   \<and> eigvals (scalar_lib eig1) [[2]] [[1]] = Some [2]
   \<and> stable [2] = []
   \<and> projection_shifts (scalar_lib eig1) scalar_ops 2 1 [[- (1 / 2)]] [[0]] [- 2] explicit_so
       = Inr ([- 2] @ (if stable [2] = [] then [- 2] else stable [2]))
   \<and> take (length [- 2 :: complex]) [- 2, - 2 :: complex] = [- 2]
   \<and> length [- 2 :: complex] < length [- 2, - 2 :: complex]"
proof -
  have w1: "window (z_columns so1) [- 2] = Inr (1, 0)"
    by (simp add: so1_def eval_window_one)
  have p1: "(if implicit_subspace so1
       then implicit_pencil (scalar_lib eig1) scalar_ops 1
              (py_slice_from [[- (1 / 2)]] (- 1 * int (length [[0 :: complex]]))) [[0]] [- 2] 1 0
       else explicit_pencil (scalar_lib eig1) scalar_ops (- 2) 1
              (py_slice_from [[- (1 / 2)]] (- 1 * int (length [[0 :: complex]]))))
      = Inr ([[- 2]], [[1]])"
    using eval_implicit_pencil by (simp add: so1_def)
  have e1: "eigvals (scalar_lib eig1) [[- 2]] [[1]] = Some [- 2]"
    by (simp add: scalar_lib_def eig1_def)
  have w2: "window (z_columns explicit_so) [- 2] = Inr (1, 0)"
    by (simp add: explicit_so_def so1_def eval_window_one)
  have p2: "(if implicit_subspace explicit_so
       then implicit_pencil (scalar_lib eig1) scalar_ops 1
              (py_slice_from [[- (1 / 2)]] (- 1 * int (length [[0 :: complex]]))) [[0]] [- 2] 1 0
       else explicit_pencil (scalar_lib eig1) scalar_ops 2 1
              (py_slice_from [[- (1 / 2)]] (- 1 * int (length [[0 :: complex]]))))
      = Inr ([[2]], [[1]])"
    using eval_explicit_pencil by (simp add: explicit_so_def)
  have e2: "eigvals (scalar_lib eig1) [[2]] [[1]] = Some [2]"
    by (simp add: scalar_lib_def eig1_def)
  have s2: "stable [2] = []" by (simp add: stable_def)
  note t1 = projection_shifts_postcondition [where so = so1 and prev_shifts = "[- 2]" and u = 1
      and d = 0 and lib = "scalar_lib eig1" and ops = scalar_ops and E = 1 and A = "- 2"
      and Z = "[[- (1 / 2)]]" and W = "[[0]]" and Ap = "[[- 2]]" and Ep = "[[1]]" and evs = "[- 2]"]
  note t2 = projection_shifts_postcondition [where so = explicit_so and prev_shifts = "[- 2]" and u = 1
      and d = 0 and lib = "scalar_lib eig1" and ops = scalar_ops and E = 1 and A = 2
      and Z = "[[- (1 / 2)]]" and W = "[[0]]" and Ap = "[[2]]" and Ep = "[[1]]" and evs = "[2]"]
  from t1 w1 p1 e1 have r1:
    "projection_shifts (scalar_lib eig1) scalar_ops (- 2) 1 [[- (1 / 2)]] [[0]] [- 2] so1
       = Inr ([- 2] @ (if stable [- 2] = [] then [- 2] else stable [- 2]))"
    by blast
  from t2 w2 p2 e2 have r2:
    "projection_shifts (scalar_lib eig1) scalar_ops 2 1 [[- (1 / 2)]] [[0]] [- 2] explicit_so
       = Inr ([- 2] @ (if stable [2] = [] then [- 2] else stable [2]))"
    by blast
  have l: "take (length [- 2 :: complex]) [- 2, - 2 :: complex] = [- 2]"
    "length [- 2 :: complex] < length [- 2, - 2 :: complex]"
    by simp_all
  from w1 p1 e1 r1 w2 p2 e2 s2 r2 l show ?thesis by (intro conjI)
qed

text \<open>
Claim C4. The claim does not hold of the code on every input with nonempty \<open>prev_shifts\<close>:
  \<open>projection_shifts\<close> does not return on the previous shifts \<open>-1 + i, -1 - i, -2\<close> with
  \<open>z_columns = 2\<close> and the implicit subspace. The window is first \<open>u = 2\<close> with the offset
  \<open>d = 1\<close>; the shift \<^verbatim>\<open>prev_shifts[-2]\<close> has negative imaginary part, so \<open>u\<close> becomes 3
  while \<open>d\<close> stays 1, and the loop that fills \<open>B\<close> and \<open>G\<close> reads \<^verbatim>\<open>prev_shifts[3]\<close>, an
  \<open>IndexError\<close>, whatever the operators, the arrays and the library routines are. In the
  driver, with these initial shifts, the step on the conjugate pair succeeds and the step on
  \<open>-2\<close>, which exhausts the shifts and calls \<open>projection_shifts\<close>, raises that error.
\<close>

theorem updater_index_error:
  "pair_shifts \<noteq> []
   \<and> z_columns two_so = 2
   \<and> implicit_subspace two_so
   \<and> window (z_columns two_so) pair_shifts = Inr (3, 1)
   \<and> projection_shifts lib ops A E Z W pair_shifts two_so = Inl IndexError
   \<and> lradi_step (scalar_lib (eig_table pair_shifts)) scalar_ops (- 1) 1 False two_so 1 pair_st0
       = Inr pair_st1
   \<and> lradi_step (scalar_lib (eig_table pair_shifts)) scalar_ops (- 1) 1 False two_so 1 pair_st1
       = Inl IndexError"
  by (simp add: eval_projection_shifts_pair eval_pair_step_first eval_pair_step_two)
    (simp add: pair_shifts_def two_so_def so1_def eval_window [unfolded pair_shifts_def])

subsection \<open>The complex step in real arithmetic\<close>

lemma real_combination:
  "va_add (va_real V) (scal (va_imag V) d) = map (map (\<lambda>x. complex_of_real (Re x + d * Im x))) V"
proof -
  have "map2 (+) (map (\<lambda>x. complex_of_real (Re x)) v)
          (map (\<lambda>x. x * complex_of_real d) (map (\<lambda>x. complex_of_real (Im x)) v))
        = map (\<lambda>x. complex_of_real (Re x + d * Im x)) v" for v
    by (induction v) (simp_all add: mult.commute)
  then show ?thesis
    unfolding va_add_def va_real_def scal_def va_imag_def
    by (induction V) simp_all
qed

lemma residual_update:
  "va_add W (scal X c) = map2 (map2 (\<lambda>w x. w + complex_of_real c * x)) W X"
proof -
  have "map2 (+) w (map (\<lambda>x. x * complex_of_real c) x) = map2 (\<lambda>w x. w + complex_of_real c * x) w x"
    for w x
    by (induction w arbitrary: x) (auto simp: zip_Cons1 mult.commute split: list.splits)
  then show ?thesis
    unfolding va_add_def scal_def
    by (induction W arbitrary: X) (auto simp: zip_Cons1 split: list.splits)
qed

lemma second_block:
  "scal (va_imag V) (g * sqrt (d\<^sup>2 + 1))
     = map (map (\<lambda>x. complex_of_real (Im x * g * sqrt (d\<^sup>2 + 1)))) V"
  by (simp add: scal_def va_imag_def mult.assoc)

lemma ebind_Inr: "ebind (Inr x) f = f x"
  by (simp add: ebind_def)

lemma lib_call_Some: "lib_call (Some x) = Inr x"
  by (simp add: lib_call_def)

lemma complex_step_spec:
  "complex_step ops A E trans_flag s Z W j = spec_complex_step ops A E trans_flag s Z W j"
proof (cases trans_flag)
  case False
  then show ?thesis
    unfolding complex_step_def spec_complex_step_def Let_def
    unfolding real_combination second_block
    unfolding residual_update
    unfolding scal_def
    by simp
next
  case True
  show ?thesis
  proof (cases "apply_inverse_adjoint ops (LincombOperator ops A E s) W")
    case None
    with True show ?thesis
      by (simp add: complex_step_def spec_complex_step_def Let_def lib_call_def ebind_def)
  next
    case (Some V0)
    with True show ?thesis
      unfolding complex_step_def spec_complex_step_def Let_def
      unfolding real_combination second_block
    unfolding residual_update
      unfolding scal_def va_conj_def
      by (simp add: lib_call_Some ebind_Inr comp_def)
  qed
qed

lemma is_real_scal: "is_real_array V \<Longrightarrow> is_real_array (scal V c)"
  by (simp add: is_real_array_def scal_def list_all_iff)

lemma is_real_va_real: "is_real_array (va_real V)"
  by (simp add: is_real_array_def va_real_def list_all_iff)

lemma is_real_va_imag: "is_real_array (va_imag V)"
  by (simp add: is_real_array_def va_imag_def list_all_iff)

lemma real_vector_map2:
  assumes "\<And>x y. Im x = 0 \<Longrightarrow> Im y = 0 \<Longrightarrow> Im (f x y) = 0"
  shows "list_all (\<lambda>x. Im x = 0) v \<Longrightarrow> list_all (\<lambda>x. Im x = 0) u \<Longrightarrow>
         list_all (\<lambda>x. Im x = 0) (map2 f v u)"
proof (induction v arbitrary: u)
  case Nil
  then show ?case by simp
next
  case (Cons a v)
  show ?case
  proof (cases u)
    case Nil
    then show ?thesis by simp
  next
    case (Cons b u')
    with Cons.prems have "Im a = 0" "Im b = 0" "list_all (\<lambda>x. Im x = 0) v"
      "list_all (\<lambda>x. Im x = 0) u'"
      by simp_all
    with Cons.IH [of u'] assms [of a b] Cons show ?thesis by simp
  qed
qed

lemma real_array_map2:
  assumes "\<And>x y. Im x = 0 \<Longrightarrow> Im y = 0 \<Longrightarrow> Im (f x y) = 0"
  shows "is_real_array V \<Longrightarrow> is_real_array U \<Longrightarrow> is_real_array (map2 (map2 f) V U)"
proof (induction V arbitrary: U)
  case Nil
  then show ?case by (simp add: is_real_array_def)
next
  case (Cons v V)
  show ?case
  proof (cases U)
    case Nil
    then show ?thesis by (simp add: is_real_array_def)
  next
    case (Cons u U')
    with Cons.prems have "list_all (\<lambda>x. Im x = 0) v" "list_all (\<lambda>x. Im x = 0) u"
      "is_real_array V" "is_real_array U'"
      by (simp_all add: is_real_array_def)
    moreover have "list_all (\<lambda>x. Im x = 0) (map2 f v u)"
      using assms \<open>list_all (\<lambda>x. Im x = 0) v\<close> \<open>list_all (\<lambda>x. Im x = 0) u\<close>
      by (rule real_vector_map2)
    ultimately show ?thesis using Cons.IH [of U'] Cons by (simp add: is_real_array_def)
  qed
qed

lemma is_real_va_add: "is_real_array V \<Longrightarrow> is_real_array U \<Longrightarrow> is_real_array (va_add V U)"
  using real_array_map2 [of "(+)" V U] by (simp add: va_add_def)

lemma is_real_va_sub: "is_real_array V \<Longrightarrow> is_real_array U \<Longrightarrow> is_real_array (va_sub V U)"
  using real_array_map2 [of "(-)" V U] by (simp add: va_sub_def)

lemma is_real_append: "is_real_array (V @ U) \<longleftrightarrow> is_real_array V \<and> is_real_array U"
  by (simp add: is_real_array_def)

lemma real_step_real:
  assumes "real_step ops A E trans_flag s Z W j = Inr (Z', W', j')"
    and r: "real_operators ops A E" and Z: "is_real_array Z" and W: "is_real_array W"
  shows "is_real_array Z' \<and> is_real_array W'"
proof (cases trans_flag)
  case False
  with assms(1) obtain V EV where
    V: "apply_inverse ops (LincombOperator ops A E (complex_of_real (Re s))) W = Some V"
    and EV: "apply_op ops E V = Some EV"
    and Z': "Z' = Z @ scal V (sqrt (- 2 * Re s))" and W': "W' = va_sub W (scal EV (2 * Re s))"
    by (auto simp: real_step_def Let_def lib_call_Inr_iff elim!: ebind_InrE)
  from r W V have rV: "is_real_array V" unfolding real_operators_def by blast
  with r EV have "is_real_array EV" unfolding real_operators_def by blast
  with rV Z W show ?thesis
    unfolding Z' W' by (simp add: is_real_append is_real_scal is_real_va_sub)
next
  case True
  with assms(1) obtain V EV where
    V: "apply_inverse_adjoint ops (LincombOperator ops A E (complex_of_real (Re s))) W = Some V"
    and EV: "apply_adjoint ops E V = Some EV"
    and Z': "Z' = Z @ scal V (sqrt (- 2 * Re s))" and W': "W' = va_sub W (scal EV (2 * Re s))"
    by (auto simp: real_step_def Let_def lib_call_Inr_iff elim!: ebind_InrE)
  from r W V have rV: "is_real_array V" unfolding real_operators_def by blast
  with r EV have "is_real_array EV" unfolding real_operators_def by blast
  with rV Z W show ?thesis
    unfolding Z' W' by (simp add: is_real_append is_real_scal is_real_va_sub)
qed

lemma complex_step_real:
  assumes "complex_step ops A E trans_flag s Z W j = Inr (Z', W', j')"
    and r: "real_operators ops A E" and Z: "is_real_array Z" and W: "is_real_array W"
  shows "is_real_array Z' \<and> is_real_array W'"
proof -
  have Y: "is_real_array (va_add (va_real V) (scal (va_imag V) (Re s / Im s)))" for V
    by (intro is_real_va_add is_real_va_real is_real_scal is_real_va_imag)
  have fin: "is_real_array Z' \<and> is_real_array W'"
    if "is_real_array X"
      and "Z' = Z @ scal (va_add (va_real V) (scal (va_imag V) (Re s / Im s))) (2 * sqrt (- Re s))
                   @ scal (va_imag V) (2 * sqrt (- Re s) * sqrt ((Re s / Im s)\<^sup>2 + 1))"
      and "W' = va_add W (scal X ((2 * sqrt (- Re s))\<^sup>2))" for V X
    using that Y [of V] Z W
    by (simp add: is_real_append is_real_scal is_real_va_add is_real_va_imag)
  show ?thesis
  proof (cases trans_flag)
    case False
    with assms(1) obtain V X where
      X: "apply_op ops E (va_add (va_real V) (scal (va_imag V) (Re s / Im s))) = Some X"
      and Z': "Z' = Z @ scal (va_add (va_real V) (scal (va_imag V) (Re s / Im s))) (2 * sqrt (- Re s))
                   @ scal (va_imag V) (2 * sqrt (- Re s) * sqrt ((Re s / Im s)\<^sup>2 + 1))"
      and W': "W' = va_add W (scal X ((2 * sqrt (- Re s))\<^sup>2))"
      by (auto simp: complex_step_def Let_def lib_call_Inr_iff elim!: ebind_InrE)
    from r Y [of V] X have "is_real_array X" unfolding real_operators_def by blast
    from fin [OF this Z' W'] show ?thesis .
  next
    case True
    with assms(1) obtain V0 X where
      X: "apply_adjoint ops E (va_add (va_real (va_conj V0)) (scal (va_imag (va_conj V0)) (Re s / Im s)))
           = Some X"
      and Z': "Z' = Z @ scal (va_add (va_real (va_conj V0)) (scal (va_imag (va_conj V0)) (Re s / Im s)))
                          (2 * sqrt (- Re s))
                   @ scal (va_imag (va_conj V0)) (2 * sqrt (- Re s) * sqrt ((Re s / Im s)\<^sup>2 + 1))"
      and W': "W' = va_add W (scal X ((2 * sqrt (- Re s))\<^sup>2))"
      by (auto simp: complex_step_def Let_def lib_call_Inr_iff elim!: ebind_InrE)
    from r Y [of "va_conj V0"] X have "is_real_array X" unfolding real_operators_def by blast
    from fin [OF this Z' W'] show ?thesis .
  qed
qed

lemma lradi_step_real:
  assumes step: "lradi_step lib ops A E trans_flag so init_res st = Inr st'"
    and r: "real_operators ops A E"
    and Z: "is_real_array (st_Z st)" and W: "is_real_array (st_W st)"
  shows "is_real_array (st_Z st') \<and> is_real_array (st_W st')"
proof -
  from step obtain s Z' W' j shifts size_shift res where
    zwj: "(if Im s = 0 then real_step ops A E trans_flag s (st_Z st) (st_W st) (st_j st)
      else complex_step ops A E trans_flag s (st_Z st) (st_W st) (st_j st)) = Inr (Z', W', j)"
    and st': "st' = \<lparr>st_Z = Z', st_W = W', st_j = j, st_shifts = shifts, st_size_shift = size_shift,
            st_res = res, st_log = st_log st @ [Info j (res / init_res)]\<rparr>"
    by (rule lradi_stepE)
  have "is_real_array Z' \<and> is_real_array W'"
  proof (cases "Im s = 0")
    case True
    with zwj have "real_step ops A E trans_flag s (st_Z st) (st_W st) (st_j st) = Inr (Z', W', j)"
      by simp
    from real_step_real [OF this r Z W] show ?thesis .
  next
    case False
    with zwj have "complex_step ops A E trans_flag s (st_Z st) (st_W st) (st_j st) = Inr (Z', W', j)"
      by simp
    from complex_step_real [OF this r Z W] show ?thesis .
  qed
  with st' show ?thesis by simp
qed

lemma lradi_run_real:
  assumes "lradi_run lib ops A E trans_flag opts so init_res Btol st ss st'"
    and "real_operators ops A E"
    and "is_real_array (st_Z st)" and "is_real_array (st_W st)"
  shows "is_real_array (st_Z st') \<and> is_real_array (st_W st')"
  using assms
proof (induction rule: lradi_run.induct)
  case (run_done st)
  then show ?case by simp
next
  case (run_step st s st1 ss st')
  from lradi_step_real [OF run_step.hyps(3) run_step.prems] run_step.IH run_step.prems(1)
  show ?case by blast
qed

lemma lradi_step_complex:
  assumes step: "lradi_step lib ops A E trans_flag so init_res st = Inr st'"
    and s: "py_index (st_shifts st) (int (st_j st)) = Inr s" and im: "Im s \<noteq> 0"
  shows "spec_complex_step ops A E trans_flag s (st_Z st) (st_W st) (st_j st)
         = Inr (st_Z st', st_W st', st_j st')"
proof -
  from step obtain s' Z' W' j shifts size_shift res where
    s': "py_index (st_shifts st) (int (st_j st)) = Inr s'"
    and zwj: "(if Im s' = 0 then real_step ops A E trans_flag s' (st_Z st) (st_W st) (st_j st)
      else complex_step ops A E trans_flag s' (st_Z st) (st_W st) (st_j st)) = Inr (Z', W', j)"
    and st': "st' = \<lparr>st_Z = Z', st_W = W', st_j = j, st_shifts = shifts, st_size_shift = size_shift,
            st_res = res, st_log = st_log st @ [Info j (res / init_res)]\<rparr>"
    by (rule lradi_stepE)
  from s s' have "s' = s" by simp
  with zwj im st' show ?thesis by (simp add: complex_step_spec)
qed

lemma is_real_scalar_div:
  "Im a = 0 \<Longrightarrow> is_real_array V \<Longrightarrow> is_real_array (map (map (\<lambda>x. x / a)) V)"
  by (simp add: is_real_array_def list_all_iff Im_divide)

lemma real_operators_scalar: "real_operators scalar_ops (- 1) 1"
proof -
  have a: "Im (- 1 + complex_of_real c * 1) = 0" "Im (cnj (- 1 + complex_of_real c * 1)) = 0" for c
    by simp_all
  have one: "is_real_array V \<Longrightarrow> is_real_array (map (map ((*) (1 :: complex))) V)" for V
    by (simp add: is_real_array_def list_all_iff)
  show ?thesis
    unfolding real_operators_def scalar_ops_def
    using one is_real_scalar_div [OF a(1)] is_real_scalar_div [OF a(2)]
    by (simp split: if_splits)
qed

text \<open>
Claim C3. \<open>spec_complex_step\<close> is the complex step in the words of the specification.
  The step of the code computes the same: \<open>V\<close> solves with \<open>A + \<sigma>E\<close> (the conjugate of the
  adjoint solve for the dual equation), \<open>g = 2\<surd>(-Re \<sigma>)\<close>, \<open>d = Re \<sigma> / Im \<sigma>\<close>, \<open>W\<close>
  becomes \<open>W + g\<^sup>2 E(Re V + d Im V)\<close>, the blocks \<open>(Re V + d Im V) g\<close> and
  \<open>Im V g \<surd>(d\<^sup>2 + 1)\<close> are appended to \<open>Z\<close>, and \<open>j\<close> advances by 2; a step of the loop
  on a shift with nonzero imaginary part is this step. For real operators (\<open>E\<close> and the
  solves with a real shift map real arrays to real arrays), \<open>Z\<close> and \<open>W\<close> stay real-valued
  after every step, and so along every run of the loop.
\<close>

theorem complex_step_real_form:
  "complex_step ops A E trans_flag s Z W j = spec_complex_step ops A E trans_flag s Z W j
   \<and> (Im s \<noteq> 0 \<longrightarrow> py_index (st_shifts st) (int (st_j st)) = Inr s \<longrightarrow>
      lradi_step lib ops A E trans_flag so init_res st = Inr st' \<longrightarrow>
        spec_complex_step ops A E trans_flag s (st_Z st) (st_W st) (st_j st)
          = Inr (st_Z st', st_W st', st_j st')
        \<and> st_j st' = st_j st + 2)
   \<and> (real_operators ops A E \<longrightarrow> is_real_array (st_Z st) \<longrightarrow> is_real_array (st_W st) \<longrightarrow>
        (lradi_step lib ops A E trans_flag so init_res st = Inr st' \<longrightarrow>
           is_real_array (st_Z st') \<and> is_real_array (st_W st'))
        \<and> (lradi_run lib ops A E trans_flag opts so init_res Btol st ss st'' \<longrightarrow>
           is_real_array (st_Z st'') \<and> is_real_array (st_W st'')))"
proof -
  have one: "spec_complex_step ops A E trans_flag s (st_Z st) (st_W st) (st_j st)
          = Inr (st_Z st', st_W st', st_j st')
        \<and> st_j st' = st_j st + 2"
    if im: "Im s \<noteq> 0" and s: "py_index (st_shifts st) (int (st_j st)) = Inr s"
      and step: "lradi_step lib ops A E trans_flag so init_res st = Inr st'"
  proof -
    note eq = lradi_step_complex [OF step s im]
    then have "complex_step ops A E trans_flag s (st_Z st) (st_W st) (st_j st)
          = Inr (st_Z st', st_W st', st_j st')"
      by (simp only: complex_step_spec)
    from complex_step_j [OF this] eq show ?thesis by simp
  qed
  from one complex_step_spec [of ops A E trans_flag s Z W j]
    lradi_step_real [of lib ops A E trans_flag so init_res st st']
    lradi_run_real [of lib ops A E trans_flag opts so init_res Btol st ss st'']
  show ?thesis by blast
qed

text \<open>
  The step on the shift \<open>-1 + i\<close> of the one-dimensional instance.
\<close>

theorem complex_step_real_form_witness:
  "Im (Complex (- 1) 1) \<noteq> 0
   \<and> py_index (st_shifts pair_st0) (int (st_j pair_st0)) = Inr (Complex (- 1) 1)
   \<and> lradi_step (scalar_lib (eig_table pair_shifts)) scalar_ops (- 1) 1 False so1 1 pair_st0
       = Inr pair_st1
   \<and> spec_complex_step scalar_ops (- 1) 1 False (Complex (- 1) 1) (st_Z pair_st0) (st_W pair_st0)
        (st_j pair_st0) = Inr (st_Z pair_st1, st_W pair_st1, st_j pair_st1)
   \<and> st_j pair_st1 = st_j pair_st0 + 2
   \<and> real_operators scalar_ops (- 1) 1
   \<and> is_real_array (st_Z pair_st0) \<and> is_real_array (st_W pair_st0)
   \<and> lradi_run (scalar_lib (eig_table pair_shifts)) scalar_ops (- 1) 1 False pair_opts so1 1
        (1 / 10 ^ 10) pair_st0 [Complex (- 1) 1] pair_st1
   \<and> is_real_array (st_Z pair_st1) \<and> is_real_array (st_W pair_st1)"
proof -
  have im: "Im (Complex (- 1) 1) \<noteq> 0" by simp
  have idx: "py_index (st_shifts pair_st0) (int (st_j pair_st0)) = Inr (Complex (- 1) 1)"
    by (simp add: pair_st0_def py_index_def pair_shifts_def)
  have r0: "is_real_array (st_Z pair_st0)" "is_real_array (st_W pair_st0)"
    by (simp_all add: pair_st0_def is_real_array_def)
  from complex_step_real_form [where s = "Complex (- 1) 1" and st = pair_st0 and st' = pair_st1
      and lib = "scalar_lib (eig_table pair_shifts)" and ops = scalar_ops and A = "- 1" and E = 1
      and trans_flag = False and so = so1 and init_res = 1 and opts = pair_opts
      and Btol = "1 / 10 ^ 10" and ss = "[Complex (- 1) 1]" and st'' = pair_st1]
    im idx eval_pair_step real_operators_scalar r0 eval_pair_run
  show ?thesis by blast
qed

end
